theory Spec2Isabelle
  imports Main "HOL-Library.Word"
begin

section \<open>The test accumulator of testutil/accumulator.go\<close>

text \<open>
  The accumulator is a struct guarded by a mutex: every method takes the lock for its whole
  body, so each method is modelled as one atomic state transformer on a record of the
  struct's fields. A method that can panic returns a sum, with the panic on the left.
\<close>

subsection \<open>Data\<close>

text \<open>\<^verbatim>\<open>time.Time\<close> as an instant in nanoseconds.\<close>

type_synonym time = int

text \<open>The kinds of \<^verbatim>\<open>telegraf.ValueType\<close> that the Add methods pass on.\<close>

datatype ValueType = Counter | Gauge | Untyped | Summary | Histogram

text \<open>
  \<^verbatim>\<open>type Metric struct\<close>: a single point measurement. Field values are
  \<^verbatim>\<open>interface{}\<close>, so the record is polymorphic in them. A Go map is a finite partial
  function; \<^verbatim>\<open>len(m) == 0\<close> is \<open>dom m = {}\<close>.
\<close>

record 'v Metric =
  Measurement :: string
  Tags :: "string \<rightharpoonup> string"
  Fields :: "string \<rightharpoonup> 'v"
  Time :: time
  Type :: ValueType

datatype fault = Panic string

text \<open>
  A Go channel, as far as a non-blocking send sees it: the capacity given to
  \<^verbatim>\<open>make\<close>, the buffered elements (oldest first) and the number of goroutines
  parked in a receive. \<open>sent\<close> is a history variable: every element a send has
  passed to the channel so far, whether it went into the buffer or straight to a
  parked receiver.
\<close>

record 'd chan =
  cap :: nat
  buf :: "'d list"
  recvq :: nat
  sent :: "'d list"

text \<open>
  \<^verbatim>\<open>type Accumulator struct\<close>. \<open>'tm\<close> stands for the interface
  \<^verbatim>\<open>telegraf.Metric\<close>, \<open>'d\<close> for \<^verbatim>\<open>telegraf.DeliveryInfo\<close>.
  A nil \<^verbatim>\<open>error\<close>, a nil channel, a nil \<^verbatim>\<open>TimeFunc\<close> and a nil
  \<^verbatim>\<open>*sync.Cond\<close> are \<open>None\<close>. The condition variable is its list of parked
  goroutines (their ids).
\<close>

type_synonym error = string

record ('v, 'tm, 'd) Accumulator =
  nMetrics :: "64 word"
  Metrics :: "'v Metric list"
  accumulated :: "'tm list"
  Discard :: bool
  Errors :: "error list"
  debug :: bool
  deliverChan :: "'d chan option"
  delivered :: "'d list"
  TimeFunc :: "(unit \<Rightarrow> time) option"
  Cond :: "nat list option"

text \<open>The zero value \<^verbatim>\<open>Accumulator{}\<close>.\<close>

definition zero_Accumulator :: "('v, 'tm, 'd) Accumulator" where
  "zero_Accumulator =
     \<lparr>nMetrics = 0, Metrics = [], accumulated = [], Discard = False, Errors = [],
      debug = False, deliverChan = None, delivered = [], TimeFunc = None, Cond = None\<rparr>"

subsection \<open>Waking waiters\<close>

text \<open>
  \<^verbatim>\<open>if a.Cond != nil { a.Cond.Broadcast() }\<close>: Broadcast releases every goroutine
  parked on the condition variable.
\<close>

definition Broadcast :: "nat list \<Rightarrow> nat list" where
  "Broadcast q = []"

definition broadcast_if_cond :: "('v, 'tm, 'd) Accumulator \<Rightarrow> ('v, 'tm, 'd) Accumulator" where
  "broadcast_if_cond a = (case Cond a of None \<Rightarrow> a | Some q \<Rightarrow> a\<lparr>Cond := Some (Broadcast q)\<rparr>)"

text \<open>The goroutines blocked in \<^verbatim>\<open>Wait\<close> or \<^verbatim>\<open>WaitError\<close>.\<close>

definition blocked_waiters :: "('v, 'tm, 'd) Accumulator \<Rightarrow> nat list" where
  "blocked_waiters a = (case Cond a of None \<Rightarrow> [] | Some q \<Rightarrow> q)"

subsection \<open>Readers\<close>

definition NMetrics :: "('v, 'tm, 'd) Accumulator \<Rightarrow> 64 word" where
  "NMetrics a = nMetrics a"

definition GetTelegrafMetrics :: "('v, 'tm, 'd) Accumulator \<Rightarrow> 'tm list" where
  "GetTelegrafMetrics a = [] @ accumulated a"

subsection \<open>ClearMetrics\<close>

definition ClearMetrics :: "('v, 'tm, 'd) Accumulator \<Rightarrow> ('v, 'tm, 'd) Accumulator" where
  "ClearMetrics a = a\<lparr>nMetrics := 0, Metrics := [], accumulated := []\<rparr>"

subsection \<open>AddError\<close>

definition AddError :: "error option \<Rightarrow> ('v, 'tm, 'd) Accumulator \<Rightarrow> ('v, 'tm, 'd) Accumulator" where
  "AddError err a =
     (case err of
        None \<Rightarrow> a
      | Some e \<Rightarrow> broadcast_if_cond (a\<lparr>Errors := Errors a @ [e]\<rparr>))"

subsection \<open>addMeasurement and the Add methods\<close>

text \<open>
  \<^verbatim>\<open>make(map, len(m))\<close> followed by \<^verbatim>\<open>for k, v := range m { c[k] = v }\<close>:
  every entry of \<open>m\<close> is written into a fresh empty map. On values the result equals
  its source; that it is an object of its own shows in \<open>addMeasurement_refs\<close> below,
  where maps have addresses.
\<close>

definition copy_map :: "('k \<rightharpoonup> 'x) \<Rightarrow> ('k \<rightharpoonup> 'x)" where
  "copy_map m = Map.empty ++ m"

text \<open>
  \<^verbatim>\<open>atomic.AddUint64(&a.nMetrics, 1)\<close> and the broadcast that follows it, the common
  head of \<^verbatim>\<open>addMeasurement\<close> and \<^verbatim>\<open>AddMetric\<close>.
\<close>

definition count_and_wake :: "('v, 'tm, 'd) Accumulator \<Rightarrow> ('v, 'tm, 'd) Accumulator" where
  "count_and_wake a = broadcast_if_cond (a\<lparr>nMetrics := nMetrics a + 1\<rparr>)"

text \<open>
  \<^verbatim>\<open>FromTestMetric\<close> (testutil/metric.go) is a parameter. \<open>now\<close> is what
  \<^verbatim>\<open>time.Now()\<close> returns at this call. The variadic \<^verbatim>\<open>timestamp ...time.Time\<close>
  is a list.
\<close>

definition addMeasurement ::
  "('v Metric \<Rightarrow> 'tm) \<Rightarrow> time \<Rightarrow> string \<Rightarrow> (string \<rightharpoonup> string) \<Rightarrow> (string \<rightharpoonup> 'v) \<Rightarrow>
   ValueType \<Rightarrow> time list \<Rightarrow> ('v, 'tm, 'd) Accumulator \<Rightarrow> ('v, 'tm, 'd) Accumulator" where
  "addMeasurement FromTestMetric now measurement tags fields' tp timestamp a =
     (let a1 = count_and_wake a in
      if Discard a1 then a1
      else if dom fields' = {} then a1
      else
        let tagsCopy = copy_map tags;
            fieldsCopy = copy_map fields';
            t = (case timestamp of
                   t0 # _ \<Rightarrow> t0
                 | [] \<Rightarrow> (case TimeFunc a1 of None \<Rightarrow> now | Some f \<Rightarrow> f ()));
            m = \<lparr>Measurement = measurement, Tags = tagsCopy, Fields = fieldsCopy,
                 Time = t, Type = tp\<rparr>
        in a1\<lparr>Metrics := Metrics a1 @ [m], accumulated := accumulated a1 @ [FromTestMetric m]\<rparr>)"

definition AddFields ::
  "('v Metric \<Rightarrow> 'tm) \<Rightarrow> time \<Rightarrow> string \<Rightarrow> (string \<rightharpoonup> 'v) \<Rightarrow> (string \<rightharpoonup> string) \<Rightarrow>
   time list \<Rightarrow> ('v, 'tm, 'd) Accumulator \<Rightarrow> ('v, 'tm, 'd) Accumulator" where
  "AddFields FromTestMetric now measurement fields' tags timestamp a =
     addMeasurement FromTestMetric now measurement tags fields' Untyped timestamp a"

definition AddCounter ::
  "('v Metric \<Rightarrow> 'tm) \<Rightarrow> time \<Rightarrow> string \<Rightarrow> (string \<rightharpoonup> 'v) \<Rightarrow> (string \<rightharpoonup> string) \<Rightarrow>
   time list \<Rightarrow> ('v, 'tm, 'd) Accumulator \<Rightarrow> ('v, 'tm, 'd) Accumulator" where
  "AddCounter FromTestMetric now measurement fields' tags timestamp a =
     addMeasurement FromTestMetric now measurement tags fields' Counter timestamp a"

definition AddGauge ::
  "('v Metric \<Rightarrow> 'tm) \<Rightarrow> time \<Rightarrow> string \<Rightarrow> (string \<rightharpoonup> 'v) \<Rightarrow> (string \<rightharpoonup> string) \<Rightarrow>
   time list \<Rightarrow> ('v, 'tm, 'd) Accumulator \<Rightarrow> ('v, 'tm, 'd) Accumulator" where
  "AddGauge FromTestMetric now measurement fields' tags timestamp a =
     addMeasurement FromTestMetric now measurement tags fields' Gauge timestamp a"

definition AddSummary ::
  "('v Metric \<Rightarrow> 'tm) \<Rightarrow> time \<Rightarrow> string \<Rightarrow> (string \<rightharpoonup> 'v) \<Rightarrow> (string \<rightharpoonup> string) \<Rightarrow>
   time list \<Rightarrow> ('v, 'tm, 'd) Accumulator \<Rightarrow> ('v, 'tm, 'd) Accumulator" where
  "AddSummary FromTestMetric now measurement fields' tags timestamp a =
     addMeasurement FromTestMetric now measurement tags fields' Summary timestamp a"

definition AddHistogram ::
  "('v Metric \<Rightarrow> 'tm) \<Rightarrow> time \<Rightarrow> string \<Rightarrow> (string \<rightharpoonup> 'v) \<Rightarrow> (string \<rightharpoonup> string) \<Rightarrow>
   time list \<Rightarrow> ('v, 'tm, 'd) Accumulator \<Rightarrow> ('v, 'tm, 'd) Accumulator" where
  "AddHistogram FromTestMetric now measurement fields' tags timestamp a =
     addMeasurement FromTestMetric now measurement tags fields' Histogram timestamp a"

text \<open>The five entry points that build a measurement from its parts, and the kind each passes.\<close>

datatype add_fn = FnAddFields | FnAddCounter | FnAddGauge | FnAddSummary | FnAddHistogram

fun Add ::
  "add_fn \<Rightarrow> ('v Metric \<Rightarrow> 'tm) \<Rightarrow> time \<Rightarrow> string \<Rightarrow> (string \<rightharpoonup> 'v) \<Rightarrow> (string \<rightharpoonup> string) \<Rightarrow>
   time list \<Rightarrow> ('v, 'tm, 'd) Accumulator \<Rightarrow> ('v, 'tm, 'd) Accumulator" where
  "Add FnAddFields = AddFields"
| "Add FnAddCounter = AddCounter"
| "Add FnAddGauge = AddGauge"
| "Add FnAddSummary = AddSummary"
| "Add FnAddHistogram = AddHistogram"

fun kind_of :: "add_fn \<Rightarrow> ValueType" where
  "kind_of FnAddFields = Untyped"
| "kind_of FnAddCounter = Counter"
| "kind_of FnAddGauge = Gauge"
| "kind_of FnAddSummary = Summary"
| "kind_of FnAddHistogram = Histogram"

subsection \<open>AddMetric and AddMetrics\<close>

text \<open>
  The method \<^verbatim>\<open>FieldList\<close> of the interface \<^verbatim>\<open>telegraf.Metric\<close> and
  \<^verbatim>\<open>ToTestMetric\<close> (testutil/metric.go) are parameters.
\<close>

definition AddMetric ::
  "('tm \<Rightarrow> 'f list) \<Rightarrow> ('tm \<Rightarrow> 'v Metric) \<Rightarrow> 'tm \<Rightarrow>
   ('v, 'tm, 'd) Accumulator \<Rightarrow> ('v, 'tm, 'd) Accumulator" where
  "AddMetric FieldList ToTestMetric m a =
     (let a1 = count_and_wake a in
      if Discard a1 then a1
      else if length (FieldList m) = 0 then a1
      else a1\<lparr>Metrics := Metrics a1 @ [ToTestMetric m], accumulated := accumulated a1 @ [m]\<rparr>)"

fun AddMetrics ::
  "('tm \<Rightarrow> 'f list) \<Rightarrow> ('tm \<Rightarrow> 'v Metric) \<Rightarrow> 'tm list \<Rightarrow>
   ('v, 'tm, 'd) Accumulator \<Rightarrow> ('v, 'tm, 'd) Accumulator" where
  "AddMetrics FieldList ToTestMetric [] a = a"
| "AddMetrics FieldList ToTestMetric (m # metrics) a =
     AddMetrics FieldList ToTestMetric metrics (AddMetric FieldList ToTestMetric m a)"

subsection \<open>Delivery tracking\<close>

text \<open>
  A send in a \<^verbatim>\<open>select\<close> with a \<^verbatim>\<open>default\<close> branch never blocks. It goes through
  when a receiver is parked on the channel (the element is handed to it and never enters
  the buffer) or when the buffer has room; otherwise the \<^verbatim>\<open>default\<close> branch runs,
  which is \<open>None\<close> here.
\<close>

definition trysend :: "'d \<Rightarrow> 'd chan \<Rightarrow> 'd chan option" where
  "trysend v c =
     (if 0 < recvq c then Some (c\<lparr>recvq := recvq c - 1, sent := sent c @ [v]\<rparr>)
      else if length (buf c) < cap c then Some (c\<lparr>buf := buf c @ [v], sent := sent c @ [v]\<rparr>)
      else None)"

text \<open>
  A receive \<^verbatim>\<open><-ch\<close> by a consumer: it takes the oldest buffered element, or parks when
  the buffer is empty.
\<close>

definition receive :: "'d chan \<Rightarrow> 'd option \<times> 'd chan" where
  "receive c =
     (case buf c of
        x # xs \<Rightarrow> (Some x, c\<lparr>buf := xs\<rparr>)
      | [] \<Rightarrow> (None, c\<lparr>recvq := recvq c + 1\<rparr>))"

text \<open>
  \<^verbatim>\<open>make(chan telegraf.DeliveryInfo, maxTracked)\<close> panics on a negative size; sizes
  beyond what the allocator can serve are not modelled.
\<close>

definition WithTracking ::
  "int \<Rightarrow> ('v, 'tm, 'd) Accumulator \<Rightarrow> fault + ('v, 'tm, 'd) Accumulator" where
  "WithTracking maxTracked a =
     (if maxTracked < 0 then Inl (Panic ''makechan: size out of range'')
      else Inr (a\<lparr>deliverChan := Some \<lparr>cap = nat maxTracked, buf = [], recvq = 0, sent = []\<rparr>,
                  delivered := []\<rparr>))"

text \<open>A send on a nil channel is never ready, so the \<^verbatim>\<open>default\<close> branch runs.\<close>

definition onDelivery ::
  "'d \<Rightarrow> ('v, 'tm, 'd) Accumulator \<Rightarrow> fault + ('v, 'tm, 'd) Accumulator" where
  "onDelivery info a =
     (case deliverChan a of
        None \<Rightarrow> Inl (Panic ''channel is full'')
      | Some c \<Rightarrow>
          (case trysend info c of
             Some c' \<Rightarrow> Inr (a\<lparr>deliverChan := Some c'\<rparr>)
           | None \<Rightarrow> Inl (Panic ''channel is full'')))"

definition Delivered :: "('v, 'tm, 'd) Accumulator \<Rightarrow> 'd chan option" where
  "Delivered a = deliverChan a"

text \<open>
  A consumer executing \<^verbatim>\<open><-a.Delivered()\<close>. On a nil channel it blocks for good and
  the accumulator is as before.
\<close>

definition consumer_receive :: "('v, 'tm, 'd) Accumulator \<Rightarrow> ('v, 'tm, 'd) Accumulator" where
  "consumer_receive a =
     (case Delivered a of
        None \<Rightarrow> a
      | Some c \<Rightarrow> a\<lparr>deliverChan := Some (snd (receive c))\<rparr>)"

definition SetDebug :: "bool \<Rightarrow> ('v, 'tm, 'd) Accumulator \<Rightarrow> ('v, 'tm, 'd) Accumulator" where
  "SetDebug d a = a\<lparr>debug := d\<rparr>"

subsection \<open>Sequences of operations\<close>

text \<open>
  The calls that change an accumulator, with their arguments. \<open>OpAdd\<close> carries the
  wall-clock reading of its call. AddTrackingMetric and AddTrackingMetricGroup reach the
  accumulator through AddMetric alone, on the metrics that the tracking wrapper returns,
  so in a run they are \<open>OpAddMetric\<close> and \<open>OpAddMetrics\<close>. The blocking calls
  Wait and WaitError are not among the operations: they read the counter and the error
  sequence, and write only the condition variable.
\<close>

datatype ('v, 'tm, 'd) op =
    OpAdd add_fn time string "string \<rightharpoonup> 'v" "string \<rightharpoonup> string" "time list"
  | OpAddMetric 'tm
  | OpAddMetrics "'tm list"
  | OpClearMetrics
  | OpAddError "error option"
  | OpWithTracking int
  | OpOnDelivery 'd
  | OpSetDebug bool
  | OpConsumerReceive

fun step ::
  "('v Metric \<Rightarrow> 'tm) \<Rightarrow> ('tm \<Rightarrow> 'f list) \<Rightarrow> ('tm \<Rightarrow> 'v Metric) \<Rightarrow> ('v, 'tm, 'd) op \<Rightarrow>
   ('v, 'tm, 'd) Accumulator \<Rightarrow> fault + ('v, 'tm, 'd) Accumulator" where
  "step FromTestMetric FieldList ToTestMetric (OpAdd fn now measurement fields' tags timestamp) a =
     Inr (Add fn FromTestMetric now measurement fields' tags timestamp a)"
| "step FromTestMetric FieldList ToTestMetric (OpAddMetric m) a =
     Inr (AddMetric FieldList ToTestMetric m a)"
| "step FromTestMetric FieldList ToTestMetric (OpAddMetrics metrics) a =
     Inr (AddMetrics FieldList ToTestMetric metrics a)"
| "step FromTestMetric FieldList ToTestMetric OpClearMetrics a = Inr (ClearMetrics a)"
| "step FromTestMetric FieldList ToTestMetric (OpAddError err) a = Inr (AddError err a)"
| "step FromTestMetric FieldList ToTestMetric (OpWithTracking maxTracked) a =
     WithTracking maxTracked a"
| "step FromTestMetric FieldList ToTestMetric (OpOnDelivery info) a = onDelivery info a"
| "step FromTestMetric FieldList ToTestMetric (OpSetDebug d) a = Inr (SetDebug d a)"
| "step FromTestMetric FieldList ToTestMetric OpConsumerReceive a = Inr (consumer_receive a)"

text \<open>A panic ends the run.\<close>

fun run ::
  "('v Metric \<Rightarrow> 'tm) \<Rightarrow> ('tm \<Rightarrow> 'f list) \<Rightarrow> ('tm \<Rightarrow> 'v Metric) \<Rightarrow> ('v, 'tm, 'd) op list \<Rightarrow>
   ('v, 'tm, 'd) Accumulator \<Rightarrow> fault + ('v, 'tm, 'd) Accumulator" where
  "run FromTestMetric FieldList ToTestMetric [] a = Inr a"
| "run FromTestMetric FieldList ToTestMetric (x # xs) a =
     (case step FromTestMetric FieldList ToTestMetric x a of
        Inl e \<Rightarrow> Inl e
      | Inr a' \<Rightarrow> run FromTestMetric FieldList ToTestMetric xs a')"

text \<open>How many measurements a call submits.\<close>

fun submissions :: "('v, 'tm, 'd) op \<Rightarrow> nat" where
  "submissions (OpAdd fn now measurement fields' tags timestamp) = 1"
| "submissions (OpAddMetric m) = 1"
| "submissions (OpAddMetrics metrics) = length metrics"
| "submissions _ = 0"

text \<open>The calls that submit one measurement: the five Add methods and AddMetric.\<close>

fun is_add :: "('v, 'tm, 'd) op \<Rightarrow> bool" where
  "is_add (OpAdd fn now measurement fields' tags timestamp) = True"
| "is_add (OpAddMetric m) = True"
| "is_add _ = False"

subsection \<open>Well-formed channels\<close>

text \<open>
  What the Go runtime maintains for every channel: the buffer never exceeds the capacity,
  and a receiver is parked only while the buffer is empty.
\<close>

definition chan_ok :: "'d chan \<Rightarrow> bool" where
  "chan_ok c = (length (buf c) \<le> cap c \<and> (buf c = [] \<or> recvq c = 0))"

definition acc_chan_ok :: "('v, 'tm, 'd) Accumulator \<Rightarrow> bool" where
  "acc_chan_ok a = (case deliverChan a of None \<Rightarrow> True | Some c \<Rightarrow> chan_ok c)"

subsection \<open>Tracked groups\<close>

type_synonym TrackingID = nat

text \<open>
  Modelled from the spec: the interface \<^verbatim>\<open>telegraf.DeliveryInfo\<close> is declared outside
  src/. This is the spec's Delivery Notification, \<^verbatim>\<open>{id, delivered, accepted-count}\<close>.
\<close>

record DeliveryInfo =
  info_id :: TrackingID
  info_delivered :: bool
  info_accepted :: nat

text \<open>
  Modelled from the spec: the tracking data of package metric is outside src/. This is the
  spec's Tracking Obligation,
  \<^verbatim>\<open>{id, member-count, acknowledged-count, accepted-count, delivered}\<close>.
\<close>

record Obligation =
  ob_id :: TrackingID
  member_count :: nat
  acknowledged_count :: nat
  accepted_count :: nat
  ob_delivered :: bool

text \<open>
  Modelled from the spec: the obligation's "remaining count", the members that have not
  yet been acknowledged. It is an integer, so that one acknowledgment too many would make
  it negative rather than zero.
\<close>

definition remaining :: "Obligation \<Rightarrow> int" where
  "remaining ob = int (member_count ob) - int (acknowledged_count ob)"

text \<open>
  Modelled from the spec: the state of the Delivery Tracker, which package metric keeps
  outside src/: the accumulator whose \<^verbatim>\<open>onDelivery\<close> the obligations notify, the
  obligations that are not yet resolved, by id, and the next fresh id.
\<close>

record ('v, 'tm) Tracker =
  acc :: "('v, 'tm, DeliveryInfo) Accumulator"
  obligations :: "TrackingID \<rightharpoonup> Obligation"
  next_id :: TrackingID

text \<open>
  Modelled from the spec: \<^verbatim>\<open>metric.WithGroupTracking\<close> is outside src/. The spec's
  AddTrackingGroup "wraps N measurements under one shared obligation (member-count = N)";
  the obligation is created unacknowledged under a fresh id. How a metric is wrapped is
  the parameter \<open>wrap\<close>.
\<close>

definition WithGroupTracking ::
  "(TrackingID \<Rightarrow> 'tm \<Rightarrow> 'tm) \<Rightarrow> 'tm list \<Rightarrow> ('v, 'tm) Tracker \<Rightarrow>
   'tm list \<times> TrackingID \<times> ('v, 'tm) Tracker" where
  "WithGroupTracking wrap grp t =
     (let gid = next_id t;
          ob = \<lparr>ob_id = gid, member_count = length grp, acknowledged_count = 0,
                accepted_count = 0, ob_delivered = False\<rparr>
      in (map (wrap gid) grp, gid,
          t\<lparr>obligations := (obligations t)(gid \<mapsto> ob), next_id := gid + 1\<rparr>))"

text \<open>
  \<^verbatim>\<open>AddTrackingMetricGroup\<close> of the accumulator: it wraps the group, then calls
  \<^verbatim>\<open>AddMetric\<close> on every wrapped metric in turn, and returns the id.
\<close>

definition AddTrackingMetricGroup ::
  "(TrackingID \<Rightarrow> 'tm \<Rightarrow> 'tm) \<Rightarrow> ('tm \<Rightarrow> 'f list) \<Rightarrow> ('tm \<Rightarrow> 'v Metric) \<Rightarrow> 'tm list \<Rightarrow>
   ('v, 'tm) Tracker \<Rightarrow> TrackingID \<times> ('v, 'tm) Tracker" where
  "AddTrackingMetricGroup wrap FieldList ToTestMetric grp t =
     (case WithGroupTracking wrap grp t of
        (db, gid, t1) \<Rightarrow> (gid, t1\<lparr>acc := AddMetrics FieldList ToTestMetric db (acc t1)\<rparr>))"

text \<open>
  Modelled from the spec: the completion path of a tracked metric is in package metric,
  outside src/. The spec's OnMemberDelivered "decrements the obligation's remaining count,
  accumulates the accepted flag; when the remaining count reaches zero, constructs the
  terminal Delivery Notification and enqueues it on the notification queue", here by the
  accumulator's \<^verbatim>\<open>onDelivery\<close>. A resolved obligation is discarded, and resolving an
  id that does not exist is a fatal misuse.
\<close>

definition OnMemberDelivered ::
  "TrackingID \<Rightarrow> bool \<Rightarrow> ('v, 'tm) Tracker \<Rightarrow> fault + ('v, 'tm) Tracker" where
  "OnMemberDelivered gid accepted t =
     (case obligations t gid of
        None \<Rightarrow> Inl (Panic ''unknown obligation'')
      | Some ob \<Rightarrow>
          (let ob1 = ob\<lparr>acknowledged_count := acknowledged_count ob + 1,
                        accepted_count := accepted_count ob + (if accepted then 1 else 0)\<rparr>
           in if remaining ob1 = 0
              then (let ob2 = ob1\<lparr>ob_delivered := True\<rparr>
                    in case onDelivery \<lparr>info_id = ob_id ob2, info_delivered = ob_delivered ob2,
                                        info_accepted = accepted_count ob2\<rparr> (acc t) of
                         Inl e \<Rightarrow> Inl e
                       | Inr a' \<Rightarrow>
                           Inr (t\<lparr>acc := a', obligations := (obligations t)(gid := None)\<rparr>))
              else Inr (t\<lparr>obligations := (obligations t)(gid \<mapsto> ob1)\<rparr>)))"

text \<open>
  Modelled from the spec: what can happen to a tracker, in any interleaving: an operation
  on its accumulator, the registration of a group by \<^verbatim>\<open>AddTrackingMetricGroup\<close>,
  and the spec's OnMemberDelivered, the completion of one member of the obligation with
  the given id.
\<close>

datatype ('v, 'tm) event =
    EvOp "('v, 'tm, DeliveryInfo) op"
  | EvGroup "'tm list"
  | EvDelivered TrackingID bool

text \<open>Modelled from the spec: the effect of one event on the tracker.\<close>

fun tstep ::
  "(TrackingID \<Rightarrow> 'tm \<Rightarrow> 'tm) \<Rightarrow> ('v Metric \<Rightarrow> 'tm) \<Rightarrow> ('tm \<Rightarrow> 'f list) \<Rightarrow> ('tm \<Rightarrow> 'v Metric) \<Rightarrow>
   ('v, 'tm) event \<Rightarrow> ('v, 'tm) Tracker \<Rightarrow> fault + ('v, 'tm) Tracker" where
  "tstep wrap FromTestMetric FieldList ToTestMetric (EvOp x) t =
     (case step FromTestMetric FieldList ToTestMetric x (acc t) of
        Inl e \<Rightarrow> Inl e
      | Inr a' \<Rightarrow> Inr (t\<lparr>acc := a'\<rparr>))"
| "tstep wrap FromTestMetric FieldList ToTestMetric (EvGroup grp) t =
     Inr (snd (AddTrackingMetricGroup wrap FieldList ToTestMetric grp t))"
| "tstep wrap FromTestMetric FieldList ToTestMetric (EvDelivered gid accepted) t =
     OnMemberDelivered gid accepted t"

text \<open>Modelled from the spec: a sequence of events. A panic ends it.\<close>

fun trun ::
  "(TrackingID \<Rightarrow> 'tm \<Rightarrow> 'tm) \<Rightarrow> ('v Metric \<Rightarrow> 'tm) \<Rightarrow> ('tm \<Rightarrow> 'f list) \<Rightarrow> ('tm \<Rightarrow> 'v Metric) \<Rightarrow>
   ('v, 'tm) event list \<Rightarrow> ('v, 'tm) Tracker \<Rightarrow> fault + ('v, 'tm) Tracker" where
  "trun wrap FromTestMetric FieldList ToTestMetric [] t = Inr t"
| "trun wrap FromTestMetric FieldList ToTestMetric (e # es) t =
     (case tstep wrap FromTestMetric FieldList ToTestMetric e t of
        Inl f \<Rightarrow> Inl f
      | Inr t' \<Rightarrow> trun wrap FromTestMetric FieldList ToTestMetric es t')"

text \<open>
  \<^verbatim>\<open>onDelivery\<close> is unexported and the accumulator passes it to the tracking wrapper
  only, so nothing but the completion path calls it: an event is not a direct call of it.
\<close>

fun by_tracker :: "('v, 'tm) event \<Rightarrow> bool" where
  "by_tracker (EvOp (OpOnDelivery info)) = False"
| "by_tracker _ = True"

text \<open>
  The events after which the notification queue is still the one it was: not a direct
  call of \<^verbatim>\<open>onDelivery\<close>, and not WithTracking, which replaces the queue (the spec
  leaves re-enabling with obligations in flight undefined).
\<close>

fun keeps_queue :: "('v, 'tm) event \<Rightarrow> bool" where
  "keeps_queue (EvOp (OpOnDelivery info)) = False"
| "keeps_queue (EvOp (OpWithTracking maxTracked)) = False"
| "keeps_queue _ = True"

text \<open>The accepted flags of the completions reported for one id, in the order of the events.\<close>

fun completions :: "TrackingID \<Rightarrow> ('v, 'tm) event list \<Rightarrow> bool list" where
  "completions gid [] = []"
| "completions gid (EvDelivered i accepted # es) =
     (if i = gid then accepted # completions gid es else completions gid es)"
| "completions gid (_ # es) = completions gid es"

text \<open>
  Modelled from the spec: the notifications emitted so far, which is everything passed
  to the accumulator's notification queue.
\<close>

definition notified :: "('v, 'tm) Tracker \<Rightarrow> DeliveryInfo list" where
  "notified t = (case deliverChan (acc t) of None \<Rightarrow> [] | Some c \<Rightarrow> sent c)"

text \<open>
  What holds of every tracker that started without obligations: an obligation is stored
  under its own id, and ids in use or already notified are below the next fresh id.
\<close>

definition tracker_ok :: "('v, 'tm) Tracker \<Rightarrow> bool" where
  "tracker_ok t =
     ((\<forall>i ob. obligations t i = Some ob \<longrightarrow> ob_id ob = i \<and> i < next_id t) \<and>
      (\<forall>n \<in> set (notified t). info_id n < next_id t))"

text \<open>Everything passed to the accumulator's queue so far; empty while the channel is nil.\<close>

definition history :: "('v, 'tm, 'd) Accumulator \<Rightarrow> 'd list" where
  "history a = (case deliverChan a of None \<Rightarrow> [] | Some c \<Rightarrow> sent c)"

text \<open>
  The state of one group of \<open>N\<close> members after the completions \<open>fl\<close>: while
  fewer than \<open>N\<close> are in, its obligation holds the counts and nothing was notified
  for its id; once all are in, the obligation is gone and exactly one notification
  carries its id.
\<close>

definition group_inv :: "TrackingID \<Rightarrow> nat \<Rightarrow> bool list \<Rightarrow> ('v, 'tm) Tracker \<Rightarrow> bool" where
  "group_inv gid N fl t =
     (tracker_ok t \<and> gid < next_id t \<and>
      (if length fl < N
       then obligations t gid =
              Some \<lparr>ob_id = gid, member_count = N, acknowledged_count = length fl,
                    accepted_count = length (filter (\<lambda>b. b) fl), ob_delivered = False\<rparr> \<and>
            filter (\<lambda>n. info_id n = gid) (notified t) = []
       else length fl = N \<and> obligations t gid = None \<and>
            filter (\<lambda>n. info_id n = gid) (notified t) =
              [\<lparr>info_id = gid, info_delivered = True,
                info_accepted = length (filter (\<lambda>b. b) fl)\<rparr>]))"

subsection \<open>The maps of a stored measurement as objects in memory\<close>

text \<open>
  A Go map is a reference to a map object, so whether the accumulator stores the caller's
  maps or maps of its own shows only in a model with memory. The memory holds the tag
  maps and the field maps under their addresses; \<open>next_ref\<close> is the address the next
  \<^verbatim>\<open>make\<close> returns.
\<close>

type_synonym ref = nat

record 'v heap =
  tag_maps :: "ref \<rightharpoonup> (string \<rightharpoonup> string)"
  field_maps :: "ref \<rightharpoonup> (string \<rightharpoonup> 'v)"
  next_ref :: ref

text \<open>\<^verbatim>\<open>type Metric struct\<close> again, with its two maps as the references they are.\<close>

record MetricRef =
  ref_Measurement :: string
  ref_Tags :: ref
  ref_Fields :: ref
  ref_Time :: time
  ref_Type :: ValueType

text \<open>
  The entries of a map argument: a nil map (\<open>None\<close>) has none, and ranging over it or
  taking its \<^verbatim>\<open>len\<close> is allowed.
\<close>

definition tags_at :: "'v heap \<Rightarrow> ref option \<Rightarrow> (string \<rightharpoonup> string)" where
  "tags_at h r =
     (case r of None \<Rightarrow> Map.empty
      | Some p \<Rightarrow> (case tag_maps h p of None \<Rightarrow> Map.empty | Some m \<Rightarrow> m))"

definition fields_at :: "'v heap \<Rightarrow> ref option \<Rightarrow> (string \<rightharpoonup> 'v)" where
  "fields_at h r =
     (case r of None \<Rightarrow> Map.empty
      | Some p \<Rightarrow> (case field_maps h p of None \<Rightarrow> Map.empty | Some m \<Rightarrow> m))"

text \<open>\<^verbatim>\<open>make(map[string]string, n)\<close> and \<^verbatim>\<open>make(map[string]interface{}, n)\<close>: a new, empty map object.\<close>

definition make_tags :: "'v heap \<Rightarrow> ref \<times> 'v heap" where
  "make_tags h =
     (next_ref h,
      h\<lparr>tag_maps := (tag_maps h)(next_ref h \<mapsto> Map.empty), next_ref := Suc (next_ref h)\<rparr>)"

definition make_fields :: "'v heap \<Rightarrow> ref \<times> 'v heap" where
  "make_fields h =
     (next_ref h,
      h\<lparr>field_maps := (field_maps h)(next_ref h \<mapsto> Map.empty), next_ref := Suc (next_ref h)\<rparr>)"

text \<open>
  \<^verbatim>\<open>for k, v := range src { dst[k] = v }\<close>: every entry of the source is written
  into the object at \<open>dst\<close>.
\<close>

definition copy_tags :: "ref option \<Rightarrow> ref \<Rightarrow> 'v heap \<Rightarrow> 'v heap" where
  "copy_tags src dst h =
     h\<lparr>tag_maps := (tag_maps h)(dst \<mapsto> tags_at h (Some dst) ++ tags_at h src)\<rparr>"

definition copy_fields :: "ref option \<Rightarrow> ref \<Rightarrow> 'v heap \<Rightarrow> 'v heap" where
  "copy_fields src dst h =
     h\<lparr>field_maps := (field_maps h)(dst \<mapsto> fields_at h (Some dst) ++ fields_at h src)\<rparr>"

text \<open>
  What a producer may do to a map it owns after the call has returned:
  \<^verbatim>\<open>m[k] = v\<close> on the object at \<open>p\<close>.
\<close>

definition set_tag :: "ref \<Rightarrow> string \<Rightarrow> string \<Rightarrow> 'v heap \<Rightarrow> 'v heap" where
  "set_tag p k v h = h\<lparr>tag_maps := (tag_maps h)(p \<mapsto> (tags_at h (Some p))(k \<mapsto> v))\<rparr>"

definition set_field :: "ref \<Rightarrow> string \<Rightarrow> 'v \<Rightarrow> 'v heap \<Rightarrow> 'v heap" where
  "set_field p k v h = h\<lparr>field_maps := (field_maps h)(p \<mapsto> (fields_at h (Some p))(k \<mapsto> v))\<rparr>"

text \<open>What a reader of the stored struct sees: the struct with its maps read from memory.\<close>

definition load :: "'v heap \<Rightarrow> MetricRef \<Rightarrow> 'v Metric" where
  "load h m =
     \<lparr>Measurement = ref_Measurement m, Tags = tags_at h (Some (ref_Tags m)),
      Fields = fields_at h (Some (ref_Fields m)), Time = ref_Time m, Type = ref_Type m\<rparr>"

text \<open>
  Memory as an allocator leaves it: every object lies below the next address. A map
  argument is nil or the address of an object.
\<close>

definition heap_ok :: "'v heap \<Rightarrow> bool" where
  "heap_ok h = (dom (tag_maps h) \<subseteq> {..<next_ref h} \<and> dom (field_maps h) \<subseteq> {..<next_ref h})"

definition live_tags :: "'v heap \<Rightarrow> ref option \<Rightarrow> bool" where
  "live_tags h r = (case r of None \<Rightarrow> True | Some p \<Rightarrow> p \<in> dom (tag_maps h))"

definition live_fields :: "'v heap \<Rightarrow> ref option \<Rightarrow> bool" where
  "live_fields h r = (case r of None \<Rightarrow> True | Some p \<Rightarrow> p \<in> dom (field_maps h))"

text \<open>
  \<^verbatim>\<open>addMeasurement\<close> once more, on map references: the same tests in the same order,
  then the two \<^verbatim>\<open>make\<close> calls, the two copy loops and the struct literal of lines
  112 to 139. It returns the \<^verbatim>\<open>*Metric\<close> that is appended to \<^verbatim>\<open>a.Metrics\<close>
  (\<open>None\<close> when the measurement is dropped) and the memory after the call.
\<close>

definition addMeasurement_refs ::
  "time \<Rightarrow> string \<Rightarrow> ref option \<Rightarrow> ref option \<Rightarrow> ValueType \<Rightarrow> time list \<Rightarrow>
   ('v, 'tm, 'd) Accumulator \<Rightarrow> 'v heap \<Rightarrow> MetricRef option \<times> 'v heap" where
  "addMeasurement_refs now measurement tags fields' tp timestamp a h =
     (let a1 = count_and_wake a in
      if Discard a1 then (None, h)
      else if dom (fields_at h fields') = {} then (None, h)
      else
        let (tagsCopy, h1) = make_tags h;
            h2 = copy_tags tags tagsCopy h1;
            (fieldsCopy, h3) = make_fields h2;
            h4 = copy_fields fields' fieldsCopy h3;
            t = (case timestamp of
                   t0 # _ \<Rightarrow> t0
                 | [] \<Rightarrow> (case TimeFunc a1 of None \<Rightarrow> now | Some f \<Rightarrow> f ()));
            m = \<lparr>ref_Measurement = measurement, ref_Tags = tagsCopy, ref_Fields = fieldsCopy,
                 ref_Time = t, ref_Type = tp\<rparr>
        in (Some m, h4))"

subsection \<open>Helper facts\<close>

lemma copy_map_id: "copy_map m = m"
  by (simp add: copy_map_def)

lemma count_and_wake_simps:
  "nMetrics (count_and_wake a) = nMetrics a + 1"
  "Metrics (count_and_wake a) = Metrics a"
  "accumulated (count_and_wake a) = accumulated a"
  "Discard (count_and_wake a) = Discard a"
  "Errors (count_and_wake a) = Errors a"
  "debug (count_and_wake a) = debug a"
  "deliverChan (count_and_wake a) = deliverChan a"
  "delivered (count_and_wake a) = delivered a"
  "TimeFunc (count_and_wake a) = TimeFunc a"
  "blocked_waiters (count_and_wake a) = []"
  by (simp_all add: count_and_wake_def broadcast_if_cond_def blocked_waiters_def Broadcast_def
      split: option.splits)

lemma Add_addMeasurement:
  "Add fn FromTestMetric now measurement fields' tags timestamp a =
     addMeasurement FromTestMetric now measurement tags fields' (kind_of fn) timestamp a"
  by (cases fn)
    (simp_all add: AddFields_def AddCounter_def AddGauge_def AddSummary_def AddHistogram_def)

lemma addMeasurement_dropped:
  "Discard a \<or> dom fields' = {} \<Longrightarrow>
   addMeasurement FromTestMetric now measurement tags fields' tp timestamp a = count_and_wake a"
  by (auto simp add: addMeasurement_def Let_def count_and_wake_simps)

lemma addMeasurement_stored:
  "\<not> Discard a \<Longrightarrow> dom fields' \<noteq> {} \<Longrightarrow>
   addMeasurement FromTestMetric now measurement tags fields' tp timestamp a =
     (count_and_wake a)
       \<lparr>Metrics := Metrics a @
          [\<lparr>Measurement = measurement, Tags = tags, Fields = fields',
            Time = (case timestamp of t0 # _ \<Rightarrow> t0
                    | [] \<Rightarrow> (case TimeFunc a of None \<Rightarrow> now | Some f \<Rightarrow> f ())),
            Type = tp\<rparr>],
        accumulated := accumulated a @
          [FromTestMetric
            \<lparr>Measurement = measurement, Tags = tags, Fields = fields',
             Time = (case timestamp of t0 # _ \<Rightarrow> t0
                     | [] \<Rightarrow> (case TimeFunc a of None \<Rightarrow> now | Some f \<Rightarrow> f ())),
             Type = tp\<rparr>]\<rparr>"
  by (simp add: addMeasurement_def Let_def count_and_wake_simps copy_map_id split: list.splits)

lemma AddMetric_dropped:
  "Discard a \<or> FieldList m = [] \<Longrightarrow> AddMetric FieldList ToTestMetric m a = count_and_wake a"
  by (auto simp add: AddMetric_def Let_def count_and_wake_simps)

lemma AddMetric_stored:
  "\<not> Discard a \<Longrightarrow> FieldList m \<noteq> [] \<Longrightarrow>
   AddMetric FieldList ToTestMetric m a =
     (count_and_wake a)\<lparr>Metrics := Metrics a @ [ToTestMetric m],
                         accumulated := accumulated a @ [m]\<rparr>"
  by (simp add: AddMetric_def Let_def count_and_wake_simps)

lemma word_add_no_wrap: "unat (x :: 64 word) + n < 2 ^ 64 \<Longrightarrow> x \<le> x + of_nat n"
  by (simp add: word_le_nat_alt unat_add_lem [THEN iffD1] unat_of_nat take_bit_nat_eq_self)

lemma AddMetrics_nMetrics:
  "nMetrics (AddMetrics FieldList ToTestMetric ms a) = nMetrics a + of_nat (length ms)"
  by (induction ms arbitrary: a) (simp_all add: AddMetric_def Let_def count_and_wake_simps)

lemma step_nMetrics:
  "x \<noteq> OpClearMetrics \<Longrightarrow> step F FL TT x a = Inr a' \<Longrightarrow>
   nMetrics a' = nMetrics a + of_nat (submissions x)"
  by (cases x)
    (auto simp add: Add_addMeasurement addMeasurement_def AddMetric_def Let_def
      count_and_wake_simps AddMetrics_nMetrics AddError_def broadcast_if_cond_def
      WithTracking_def onDelivery_def SetDebug_def consumer_receive_def Delivered_def
      split: option.splits if_splits)

lemma run_nMetrics:
  "OpClearMetrics \<notin> set xs \<Longrightarrow> run F FL TT xs a = Inr a' \<Longrightarrow>
   nMetrics a' = nMetrics a + of_nat (sum_list (map submissions xs))"
proof (induction xs arbitrary: a)
  case Nil
  then show ?case by simp
next
  case (Cons x xs)
  from Cons.prems obtain a1 where
    s: "step F FL TT x a = Inr a1" and r: "run F FL TT xs a1 = Inr a'"
    by (auto split: sum.splits)
  from Cons.prems have "x \<noteq> OpClearMetrics" and "OpClearMetrics \<notin> set xs"
    by auto
  with s r Cons.IH [of a1] step_nMetrics [of x F FL TT a a1] show ?case
    by simp
qed

lemma AddMetrics_lengths:
  "length (Metrics a) = length (accumulated a) \<Longrightarrow>
   length (Metrics (AddMetrics FieldList ToTestMetric ms a)) =
   length (accumulated (AddMetrics FieldList ToTestMetric ms a))"
  by (induction ms arbitrary: a) (simp_all add: AddMetric_def Let_def count_and_wake_simps)

lemma step_lengths:
  "length (Metrics a) = length (accumulated a) \<Longrightarrow> step F FL TT x a = Inr a' \<Longrightarrow>
   length (Metrics a') = length (accumulated a')"
  by (cases x)
    (auto simp add: Add_addMeasurement addMeasurement_def AddMetric_def Let_def
      count_and_wake_simps AddMetrics_lengths AddError_def broadcast_if_cond_def
      WithTracking_def onDelivery_def SetDebug_def consumer_receive_def Delivered_def
      ClearMetrics_def
      split: option.splits if_splits)

lemma run_lengths:
  "length (Metrics a) = length (accumulated a) \<Longrightarrow> run F FL TT xs a = Inr a' \<Longrightarrow>
   length (Metrics a') = length (accumulated a')"
proof (induction xs arbitrary: a)
  case Nil
  then show ?case by simp
next
  case (Cons x xs)
  then show ?case
    by (auto split: sum.splits dest: step_lengths)
qed

lemma step_add_discard:
  "Discard a \<Longrightarrow> is_add x \<Longrightarrow> step F FL TT x a = Inr (count_and_wake a)"
  by (cases x) (simp_all add: Add_addMeasurement addMeasurement_dropped AddMetric_dropped)

lemma run_add_discard:
  "Discard a \<Longrightarrow> list_all is_add xs \<Longrightarrow>
   \<exists>a'. run F FL TT xs a = Inr a' \<and> nMetrics a' = nMetrics a + of_nat (length xs) \<and>
        Metrics a' = Metrics a \<and> accumulated a' = accumulated a \<and> Discard a' \<and>
        (xs \<noteq> [] \<longrightarrow> blocked_waiters a' = [])"
proof (induction xs arbitrary: a)
  case Nil
  then show ?case by simp
next
  case (Cons x xs)
  let ?a1 = "count_and_wake a"
  from Cons.prems have s: "step F FL TT x a = Inr ?a1"
    by (simp add: step_add_discard)
  from Cons.prems have "Discard ?a1" and "list_all is_add xs"
    by (simp_all add: count_and_wake_simps)
  from Cons.IH [OF this] obtain a' where
    r: "run F FL TT xs ?a1 = Inr a'" and
    n: "nMetrics a' = nMetrics ?a1 + of_nat (length xs)" and
    m: "Metrics a' = Metrics ?a1" "accumulated a' = accumulated ?a1" "Discard a'" and
    w: "xs \<noteq> [] \<longrightarrow> blocked_waiters a' = []"
    by blast
  have "blocked_waiters a' = []"
  proof (cases xs)
    case Nil
    with r show ?thesis by (auto simp add: count_and_wake_simps)
  next
    case (Cons y ys)
    with w show ?thesis by simp
  qed
  with s r n m show ?case
    by (simp add: count_and_wake_simps)
qed

lemma AddMetrics_deliverChan:
  "deliverChan (AddMetrics FieldList ToTestMetric ms a) = deliverChan a"
  by (induction ms arbitrary: a) (simp_all add: AddMetric_def Let_def count_and_wake_simps)

lemma trysend_ok: "chan_ok c \<Longrightarrow> trysend v c = Some c' \<Longrightarrow> chan_ok c'"
  by (auto simp add: chan_ok_def trysend_def split: if_splits)

lemma receive_ok: "chan_ok c \<Longrightarrow> chan_ok (snd (receive c))"
  by (auto simp add: chan_ok_def receive_def split: list.splits)

lemma fresh_chan_ok: "chan_ok \<lparr>cap = n, buf = [], recvq = 0, sent = []\<rparr>"
  by (simp add: chan_ok_def)

lemma step_deliverChan:
  "step F FL TT x a = Inr a' \<Longrightarrow>
   deliverChan a' = deliverChan a \<or>
   (\<exists>n. deliverChan a' = Some \<lparr>cap = n, buf = [], recvq = 0, sent = []\<rparr>) \<or>
   (\<exists>c v c'. deliverChan a = Some c \<and> trysend v c = Some c' \<and> deliverChan a' = Some c') \<or>
   (\<exists>c. deliverChan a = Some c \<and> deliverChan a' = Some (snd (receive c)))"
  by (cases x)
    (auto simp add: Add_addMeasurement addMeasurement_def AddMetric_def Let_def
      count_and_wake_simps AddMetrics_deliverChan AddError_def broadcast_if_cond_def
      WithTracking_def onDelivery_def SetDebug_def consumer_receive_def Delivered_def
      ClearMetrics_def
      split: option.splits if_splits)

lemma step_chan_ok:
  "acc_chan_ok a \<Longrightarrow> step F FL TT x a = Inr a' \<Longrightarrow> acc_chan_ok a'"
  using step_deliverChan [of F FL TT x a a']
  by (auto simp add: acc_chan_ok_def trysend_ok receive_ok fresh_chan_ok split: option.splits)

lemma run_chan_ok:
  "acc_chan_ok a \<Longrightarrow> run F FL TT xs a = Inr a' \<Longrightarrow> acc_chan_ok a'"
proof (induction xs arbitrary: a)
  case Nil
  then show ?case by simp
next
  case (Cons x xs)
  then show ?case
    by (auto split: sum.splits dest: step_chan_ok)
qed

lemma onDelivery_full:
  "deliverChan a = Some c \<Longrightarrow> chan_ok c \<Longrightarrow> length (buf c) = cap c \<Longrightarrow>
   cap c = 0 \<longrightarrow> recvq c = 0 \<Longrightarrow> onDelivery info a = Inl (Panic ''channel is full'')"
  by (auto simp add: onDelivery_def trysend_def chan_ok_def)

lemma onDelivery_outcomes:
  "deliverChan a = Some c \<Longrightarrow>
   onDelivery info a = Inl (Panic ''channel is full'') \<or>
   (\<exists>c'. onDelivery info a = Inr (a\<lparr>deliverChan := Some c'\<rparr>) \<and> sent c' = sent c @ [info])"
  by (auto simp add: onDelivery_def trysend_def)

lemma OnMemberDelivered_pending:
  "obligations t gid = Some ob \<Longrightarrow> Suc (acknowledged_count ob) < member_count ob \<Longrightarrow>
   OnMemberDelivered gid b t =
     Inr (t\<lparr>obligations := (obligations t)(gid \<mapsto>
            ob\<lparr>acknowledged_count := Suc (acknowledged_count ob),
               accepted_count := accepted_count ob + (if b then 1 else 0)\<rparr>)\<rparr>)"
  by (simp add: OnMemberDelivered_def Let_def remaining_def)

lemma trysend_room:
  "0 < recvq c \<or> length (buf c) < cap c \<Longrightarrow>
   \<exists>c'. trysend v c = Some c' \<and> sent c' = sent c @ [v]"
  by (auto simp add: trysend_def)

lemma OnMemberDelivered_last:
  "obligations t gid = Some ob \<Longrightarrow> Suc (acknowledged_count ob) = member_count ob \<Longrightarrow>
   deliverChan (acc t) = Some c \<Longrightarrow> 0 < recvq c \<or> length (buf c) < cap c \<Longrightarrow>
   \<exists>t' c'. OnMemberDelivered gid b t = Inr t' \<and> deliverChan (acc t') = Some c' \<and>
     sent c' = sent c @ [\<lparr>info_id = ob_id ob, info_delivered = True,
                           info_accepted = accepted_count ob + (if b then 1 else 0)\<rparr>] \<and>
     obligations t' gid = None"
proof -
  assume ob: "obligations t gid = Some ob" and last: "Suc (acknowledged_count ob) = member_count ob"
    and c: "deliverChan (acc t) = Some c" and room: "0 < recvq c \<or> length (buf c) < cap c"
  let ?info = "\<lparr>info_id = ob_id ob, info_delivered = True,
                 info_accepted = accepted_count ob + (if b then 1 else 0)\<rparr>"
  from trysend_room [OF room] obtain c' where
    s: "trysend ?info c = Some c'" and h: "sent c' = sent c @ [?info]"
    by blast
  from c s have "onDelivery ?info (acc t) = Inr ((acc t)\<lparr>deliverChan := Some c'\<rparr>)"
    by (simp add: onDelivery_def)
  with ob last have
    "OnMemberDelivered gid b t =
       Inr (t\<lparr>acc := (acc t)\<lparr>deliverChan := Some c'\<rparr>, obligations := (obligations t)(gid := None)\<rparr>)"
    by (simp add: OnMemberDelivered_def Let_def remaining_def)
  with h show ?thesis by simp
qed

lemma notified_history: "notified t = history (acc t)"
  by (simp add: notified_def history_def)

lemma AddMetrics_history: "history (AddMetrics FL TT ms a) = history a"
  by (simp add: history_def AddMetrics_deliverChan)

lemma step_history:
  "step F FL TT x a = Inr a' \<Longrightarrow>
   (case x of OpWithTracking n \<Rightarrow> history a' = []
    | OpOnDelivery info \<Rightarrow> history a' = history a @ [info]
    | _ \<Rightarrow> history a' = history a)"
  by (cases x)
    (auto simp add: history_def Add_addMeasurement addMeasurement_def AddMetric_def Let_def
      count_and_wake_simps AddMetrics_deliverChan AddError_def broadcast_if_cond_def
      WithTracking_def onDelivery_def trysend_def SetDebug_def consumer_receive_def
      Delivered_def ClearMetrics_def receive_def
      split: option.splits if_splits list.splits)

lemma onDelivery_history:
  "onDelivery info a = Inr a' \<Longrightarrow> history a' = history a @ [info]"
  by (auto simp add: history_def onDelivery_def trysend_def split: option.splits if_splits)

lemma OnMemberDelivered_Inr:
  assumes "OnMemberDelivered i b t = Inr t'"
  obtains ob where "obligations t i = Some ob"
    and "next_id t' = next_id t"
    and "Suc (acknowledged_count ob) \<noteq> member_count ob \<Longrightarrow>
           notified t' = notified t \<and>
           obligations t' = (obligations t)(i \<mapsto>
             ob\<lparr>acknowledged_count := Suc (acknowledged_count ob),
                accepted_count := accepted_count ob + (if b then 1 else 0)\<rparr>)"
    and "Suc (acknowledged_count ob) = member_count ob \<Longrightarrow>
           notified t' = notified t @
             [\<lparr>info_id = ob_id ob, info_delivered = True,
               info_accepted = accepted_count ob + (if b then 1 else 0)\<rparr>] \<and>
           obligations t' = (obligations t)(i := None)"
proof (cases "obligations t i")
  case None
  with assms show ?thesis by (simp add: OnMemberDelivered_def)
next
  case (Some ob)
  show ?thesis
  proof (cases "Suc (acknowledged_count ob) = member_count ob")
    case True
    with Some assms obtain a' where
      d: "onDelivery \<lparr>info_id = ob_id ob, info_delivered = True,
            info_accepted = accepted_count ob + (if b then 1 else 0)\<rparr> (acc t) = Inr a'"
      and t': "t' = t\<lparr>acc := a', obligations := (obligations t)(i := None)\<rparr>"
      by (auto simp add: OnMemberDelivered_def Let_def remaining_def split: sum.splits)
    from onDelivery_history [OF d] t' True Some show ?thesis
      by (intro that [of ob]) (simp_all add: notified_history)
  next
    case False
    with Some assms have
      "t' = t\<lparr>obligations := (obligations t)(i \<mapsto>
             ob\<lparr>acknowledged_count := Suc (acknowledged_count ob),
                accepted_count := accepted_count ob + (if b then 1 else 0)\<rparr>)\<rparr>"
      by (auto simp add: OnMemberDelivered_def Let_def remaining_def split: sum.splits)
    with False Some show ?thesis
      by (intro that [of ob]) (simp_all add: notified_def)
  qed
qed

lemma tracker_okI:
  "(\<And>i ob. obligations t i = Some ob \<Longrightarrow> ob_id ob = i \<and> i < next_id t) \<Longrightarrow>
   (\<And>n. n \<in> set (notified t) \<Longrightarrow> info_id n < next_id t) \<Longrightarrow> tracker_ok t"
  by (simp add: tracker_ok_def)

lemma tracker_ok_ob:
  "tracker_ok t \<Longrightarrow> obligations t i = Some ob \<Longrightarrow> ob_id ob = i \<and> i < next_id t"
  by (simp add: tracker_ok_def)

lemma tracker_ok_notified:
  "tracker_ok t \<Longrightarrow> n \<in> set (notified t) \<Longrightarrow> info_id n < next_id t"
  by (simp add: tracker_ok_def)

lemma group_effect:
  "AddTrackingMetricGroup W FL TT grp t = (gid, t1) \<Longrightarrow>
   gid = next_id t \<and> next_id t1 = Suc (next_id t) \<and> notified t1 = notified t \<and>
   obligations t1 = (obligations t)(next_id t \<mapsto>
     \<lparr>ob_id = next_id t, member_count = length grp, acknowledged_count = 0,
      accepted_count = 0, ob_delivered = False\<rparr>)"
  by (auto simp add: AddTrackingMetricGroup_def WithGroupTracking_def Let_def notified_def
      AddMetrics_deliverChan)

lemma op_effect:
  "tstep W F FL TT (EvOp x) t = Inr t' \<Longrightarrow>
   obligations t' = obligations t \<and> next_id t' = next_id t \<and>
   (case x of OpWithTracking n \<Rightarrow> notified t' = []
    | OpOnDelivery info \<Rightarrow> notified t' = notified t @ [info]
    | _ \<Rightarrow> notified t' = notified t)"
proof -
  assume "tstep W F FL TT (EvOp x) t = Inr t'"
  then obtain a' where s: "step F FL TT x (acc t) = Inr a'" and t': "t' = t\<lparr>acc := a'\<rparr>"
    by (auto split: sum.splits)
  from step_history [OF s] t' show ?thesis
    by (cases x) (simp_all add: notified_history)
qed

lemma tstep_tracker_ok:
  assumes ok: "tracker_ok t" and e: "by_tracker e" and s: "tstep W F FL TT e t = Inr t'"
  shows "tracker_ok t'"
proof (cases e)
  case (EvOp x)
  from op_effect [OF s [unfolded EvOp]] e EvOp ok show ?thesis
    by (cases x) (auto simp add: tracker_ok_def)
next
  case (EvGroup grp)
  with s have "AddTrackingMetricGroup W FL TT grp t = (fst (AddTrackingMetricGroup W FL TT grp t), t')"
    by auto
  from group_effect [OF this] ok show ?thesis
    by (auto simp add: tracker_ok_def less_Suc_eq)
next
  case (EvDelivered i b)
  with s have d: "OnMemberDelivered i b t = Inr t'"
    by simp
  from d show ?thesis
  proof (rule OnMemberDelivered_Inr)
    fix ob
    assume ob: "obligations t i = Some ob" and n: "next_id t' = next_id t"
      and pend: "Suc (acknowledged_count ob) \<noteq> member_count ob \<Longrightarrow>
           notified t' = notified t \<and>
           obligations t' = (obligations t)(i \<mapsto>
             ob\<lparr>acknowledged_count := Suc (acknowledged_count ob),
                accepted_count := accepted_count ob + (if b then 1 else 0)\<rparr>)"
      and fin: "Suc (acknowledged_count ob) = member_count ob \<Longrightarrow>
           notified t' = notified t @
             [\<lparr>info_id = ob_id ob, info_delivered = True,
               info_accepted = accepted_count ob + (if b then 1 else 0)\<rparr>] \<and>
           obligations t' = (obligations t)(i := None)"
    from tracker_ok_ob [OF ok ob] have id: "ob_id ob = i" "i < next_id t"
      by simp_all
    show ?thesis
    proof (cases "Suc (acknowledged_count ob) = member_count ob")
      case True
      from fin [OF True] n id ok show ?thesis
        by (auto simp add: tracker_ok_def split: if_splits)
    next
      case False
      from pend [OF False] n id ok show ?thesis
        by (auto simp add: tracker_ok_def split: if_splits)
    qed
  qed
qed

lemma trun_tracker_ok:
  "tracker_ok t \<Longrightarrow> list_all by_tracker es \<Longrightarrow> trun W F FL TT es t = Inr t' \<Longrightarrow> tracker_ok t'"
proof (induction es arbitrary: t)
  case Nil
  then show ?case by simp
next
  case (Cons e es)
  from Cons.prems obtain t1 where
    s: "tstep W F FL TT e t = Inr t1" and r: "trun W F FL TT es t1 = Inr t'"
    by (auto split: sum.splits)
  from Cons.prems s have "tracker_ok t1"
    by (auto intro: tstep_tracker_ok)
  with Cons.prems r show ?case
    by (auto intro: Cons.IH)
qed

lemma keeps_queue_by_tracker: "keeps_queue e \<Longrightarrow> by_tracker e"
  by (cases e rule: keeps_queue.cases) simp_all

lemma tstep_group_inv:
  assumes inv: "group_inv gid N fl t" and e: "keeps_queue e"
    and s: "tstep W F FL TT e t = Inr t'"
  shows "group_inv gid N (fl @ completions gid [e]) t'"
proof -
  from inv have ok: "tracker_ok t" and lt: "gid < next_id t"
    by (simp_all add: group_inv_def)
  from ok e s have ok': "tracker_ok t'"
    by (auto intro: tstep_tracker_ok keeps_queue_by_tracker)
  show ?thesis
  proof (cases e)
    case (EvOp x)
    from op_effect [OF s [unfolded EvOp]] e EvOp have
      "obligations t' = obligations t" "next_id t' = next_id t" "notified t' = notified t"
      by (cases x; simp)+
    with inv ok' EvOp show ?thesis
      by (simp add: group_inv_def)
  next
    case (EvGroup grp)
    with s have "AddTrackingMetricGroup W FL TT grp t = (fst (AddTrackingMetricGroup W FL TT grp t), t')"
      by auto
    from group_effect [OF this] inv ok' EvGroup lt show ?thesis
      by (auto simp add: group_inv_def)
  next
    case (EvDelivered i b)
    with s have d: "OnMemberDelivered i b t = Inr t'"
      by simp
    from d show ?thesis
    proof (rule OnMemberDelivered_Inr)
      fix ob
      assume ob: "obligations t i = Some ob" and n: "next_id t' = next_id t"
        and pend: "Suc (acknowledged_count ob) \<noteq> member_count ob \<Longrightarrow>
             notified t' = notified t \<and>
             obligations t' = (obligations t)(i \<mapsto>
               ob\<lparr>acknowledged_count := Suc (acknowledged_count ob),
                  accepted_count := accepted_count ob + (if b then 1 else 0)\<rparr>)"
        and fin: "Suc (acknowledged_count ob) = member_count ob \<Longrightarrow>
             notified t' = notified t @
               [\<lparr>info_id = ob_id ob, info_delivered = True,
                 info_accepted = accepted_count ob + (if b then 1 else 0)\<rparr>] \<and>
             obligations t' = (obligations t)(i := None)"
      from tracker_ok_ob [OF ok ob] have id: "ob_id ob = i"
        by simp
      show ?thesis
      proof (cases "i = gid")
        case False
        with EvDelivered have c: "completions gid [e] = []"
          by simp
        show ?thesis
        proof (cases "Suc (acknowledged_count ob) = member_count ob")
          case True
          from fin [OF True] n id False inv ok' c show ?thesis
            by (simp add: group_inv_def)
        next
          case nf: False
          from pend [OF nf] n id False inv ok' c show ?thesis
            by (simp add: group_inv_def)
        qed
      next
        case True
        with EvDelivered have c: "completions gid [e] = [b]"
          by simp
        from True ob inv have run: "length fl < N" and
          obeq: "ob = \<lparr>ob_id = gid, member_count = N, acknowledged_count = length fl,
                    accepted_count = length (filter (\<lambda>b. b) fl), ob_delivered = False\<rparr>"
          and none: "filter (\<lambda>n. info_id n = gid) (notified t) = []"
          by (auto simp add: group_inv_def split: if_splits)
        show ?thesis
        proof (cases "Suc (length fl) = N")
          case last: True
          with obeq have "Suc (acknowledged_count ob) = member_count ob"
            by simp
          from fin [OF this] n True lt ok' c obeq none last show ?thesis
            by (simp add: group_inv_def)
        next
          case more: False
          with obeq have "Suc (acknowledged_count ob) \<noteq> member_count ob"
            by simp
          from pend [OF this] n True lt ok' c obeq none more run show ?thesis
            by (simp add: group_inv_def)
        qed
      qed
    qed
  qed
qed

lemma completions_append:
  "completions gid (xs @ ys) = completions gid xs @ completions gid ys"
  by (induction gid xs rule: completions.induct) simp_all

lemma trun_group_inv:
  "group_inv gid N fl t \<Longrightarrow> list_all keeps_queue es \<Longrightarrow> trun W F FL TT es t = Inr t' \<Longrightarrow>
   group_inv gid N (fl @ completions gid es) t'"
proof (induction es arbitrary: t fl)
  case Nil
  then show ?case by simp
next
  case (Cons e es)
  from Cons.prems obtain t1 where
    s: "tstep W F FL TT e t = Inr t1" and r: "trun W F FL TT es t1 = Inr t'"
    by (auto split: sum.splits)
  from Cons.prems s have "group_inv gid N (fl @ completions gid [e]) t1"
    by (auto intro: tstep_group_inv)
  from Cons.IH [OF this _ r] Cons.prems
  have "group_inv gid N ((fl @ completions gid [e]) @ completions gid es) t'"
    by simp
  moreover have "completions gid (e # es) = completions gid [e] @ completions gid es"
    using completions_append [of gid "[e]" es] by simp
  ultimately show ?case
    by simp
qed

lemma group_inv_start:
  assumes ok: "tracker_ok t" and reg: "AddTrackingMetricGroup W FL TT grp t = (gid, t1)"
    and ne: "grp \<noteq> []"
  shows "group_inv gid (length grp) [] t1"
proof -
  from group_effect [OF reg] have g: "gid = next_id t" "next_id t1 = Suc (next_id t)"
    "notified t1 = notified t"
    "obligations t1 = (obligations t)(next_id t \<mapsto>
       \<lparr>ob_id = next_id t, member_count = length grp, acknowledged_count = 0,
        accepted_count = 0, ob_delivered = False\<rparr>)"
    by simp_all
  from g ok have ok1: "tracker_ok t1"
    by (auto simp add: tracker_ok_def less_Suc_eq)
  from ok have "\<forall>n \<in> set (notified t). info_id n \<noteq> next_id t"
    by (auto dest: tracker_ok_notified)
  then have "filter (\<lambda>n. info_id n = next_id t) (notified t) = []"
    by (simp add: filter_empty_conv)
  with g ok1 ne show ?thesis
    by (simp add: group_inv_def)
qed

lemma OnMemberDelivered_last_full:
  "obligations t gid = Some ob \<Longrightarrow> Suc (acknowledged_count ob) = member_count ob \<Longrightarrow>
   (\<forall>c. deliverChan (acc t) = Some c \<longrightarrow> recvq c = 0 \<and> cap c \<le> length (buf c)) \<Longrightarrow>
   OnMemberDelivered gid b t = Inl (Panic ''channel is full'')"
  by (auto simp add: OnMemberDelivered_def Let_def remaining_def onDelivery_def trysend_def
      split: option.splits)

lemma tags_at_simps:
  "tags_at h None = Map.empty"
  "tags_at (h\<lparr>field_maps := fm\<rparr>) r = tags_at h r"
  "tags_at (h\<lparr>next_ref := n\<rparr>) r = tags_at h r"
  "tags_at (h\<lparr>tag_maps := tm\<rparr>) (Some q) =
     (case tm q of None \<Rightarrow> Map.empty | Some m \<Rightarrow> m)"
  "(case tag_maps h q of None \<Rightarrow> Map.empty | Some m \<Rightarrow> m) = tags_at h (Some q)"
  by (simp_all add: tags_at_def split: option.splits)

lemma fields_at_simps:
  "fields_at h None = Map.empty"
  "fields_at (h\<lparr>tag_maps := tm\<rparr>) r = fields_at h r"
  "fields_at (h\<lparr>next_ref := n\<rparr>) r = fields_at h r"
  "fields_at (h\<lparr>field_maps := fm\<rparr>) (Some q) =
     (case fm q of None \<Rightarrow> Map.empty | Some m \<Rightarrow> m)"
  "(case field_maps h q of None \<Rightarrow> Map.empty | Some m \<Rightarrow> m) = fields_at h (Some q)"
  by (simp_all add: fields_at_def split: option.splits)

lemma live_below:
  "heap_ok h \<Longrightarrow> live_tags h (Some p) \<Longrightarrow> p < next_ref h"
  "heap_ok h \<Longrightarrow> live_fields h (Some p) \<Longrightarrow> p < next_ref h"
  by (auto simp add: heap_ok_def live_tags_def live_fields_def)

lemma make_tags_copy:
  assumes ok: "heap_ok h" and lt: "live_tags h tags"
  shows "copy_tags tags (fst (make_tags h)) (snd (make_tags h)) =
     h\<lparr>tag_maps := (tag_maps h)(next_ref h \<mapsto> tags_at h tags), next_ref := Suc (next_ref h)\<rparr>"
proof (cases tags)
  case None
  then show ?thesis
    by (simp add: copy_tags_def make_tags_def tags_at_simps)
next
  case (Some p)
  with ok lt have "p \<noteq> next_ref h"
    using live_below(1) [of h p] by auto
  with Some show ?thesis
    by (simp add: copy_tags_def make_tags_def tags_at_simps)
qed

lemma make_fields_copy:
  assumes ok: "heap_ok h" and lf: "live_fields h fields'"
  shows "copy_fields fields' (fst (make_fields h)) (snd (make_fields h)) =
     h\<lparr>field_maps := (field_maps h)(next_ref h \<mapsto> fields_at h fields'),
       next_ref := Suc (next_ref h)\<rparr>"
proof (cases fields')
  case None
  then show ?thesis
    by (simp add: copy_fields_def make_fields_def fields_at_simps)
next
  case (Some p)
  with ok lf have "p \<noteq> next_ref h"
    using live_below(2) [of h p] by auto
  with Some show ?thesis
    by (simp add: copy_fields_def make_fields_def fields_at_simps)
qed

lemma heap_ok_after_tags:
  "heap_ok h \<Longrightarrow>
   heap_ok (h\<lparr>tag_maps := (tag_maps h)(next_ref h \<mapsto> m), next_ref := Suc (next_ref h)\<rparr>)"
  by (auto simp add: heap_ok_def less_Suc_eq)

lemma live_fields_after_tags:
  "live_fields h r \<Longrightarrow> live_fields (h\<lparr>tag_maps := tm, next_ref := n\<rparr>) r"
  by (simp add: live_fields_def split: option.splits)

lemma addMeasurement_refs_stored:
  assumes ok: "heap_ok h" and lt: "live_tags h tags" and lf: "live_fields h fields'"
    and nd: "\<not> Discard a" and ne: "dom (fields_at h fields') \<noteq> {}"
  shows "addMeasurement_refs now measurement tags fields' tp timestamp a h =
     (Some \<lparr>ref_Measurement = measurement, ref_Tags = next_ref h,
            ref_Fields = Suc (next_ref h),
            ref_Time = (case timestamp of t0 # _ \<Rightarrow> t0
                        | [] \<Rightarrow> (case TimeFunc a of None \<Rightarrow> now | Some f \<Rightarrow> f ())),
            ref_Type = tp\<rparr>,
      h\<lparr>tag_maps := (tag_maps h)(next_ref h \<mapsto> tags_at h tags),
        field_maps := (field_maps h)(Suc (next_ref h) \<mapsto> fields_at h fields'),
        next_ref := Suc (Suc (next_ref h))\<rparr>)"
proof -
  let ?h2 = "h\<lparr>tag_maps := (tag_maps h)(next_ref h \<mapsto> tags_at h tags),
      next_ref := Suc (next_ref h)\<rparr>"
  have h2: "copy_tags tags (fst (make_tags h)) (snd (make_tags h)) = ?h2"
    using ok lt by (rule make_tags_copy)
  have "heap_ok ?h2" and "live_fields ?h2 fields'"
    using ok lf by (simp_all add: heap_ok_after_tags live_fields_after_tags)
  then have h4: "copy_fields fields' (fst (make_fields ?h2)) (snd (make_fields ?h2)) =
      ?h2\<lparr>field_maps := (field_maps ?h2)(next_ref ?h2 \<mapsto> fields_at ?h2 fields'),
          next_ref := Suc (next_ref ?h2)\<rparr>"
    by (rule make_fields_copy)
  have n: "fst (make_tags h) = next_ref h" "fst (make_fields ?h2) = Suc (next_ref h)"
    by (simp_all add: make_tags_def make_fields_def)
  from nd ne h2 h4 n show ?thesis
    by (simp add: addMeasurement_refs_def Let_def count_and_wake_simps split_beta
        fields_at_simps split: list.splits)
qed

lemma load_after_set_tag:
  "p \<noteq> ref_Tags mr \<Longrightarrow> load (set_tag p k v h) mr = load h mr"
  by (simp add: load_def set_tag_def tags_at_simps fields_at_simps)

lemma load_after_set_field:
  "p \<noteq> ref_Fields mr \<Longrightarrow> load (set_field p k v h) mr = load h mr"
  by (simp add: load_def set_field_def tags_at_simps fields_at_simps)

lemma addMeasurement_refs_copy:
  assumes ok: "heap_ok h" and lt: "live_tags h tags_ref" and lf: "live_fields h fields_ref"
    and nd: "\<not> Discard a" and ne: "dom (fields_at h fields_ref) \<noteq> {}"
  shows "\<exists>mr h'.
     addMeasurement_refs now measurement tags_ref fields_ref tp timestamp a h = (Some mr, h') \<and>
     load h' mr =
       \<lparr>Measurement = measurement, Tags = tags_at h tags_ref, Fields = fields_at h fields_ref,
        Time = (case timestamp of t0 # _ \<Rightarrow> t0
                | [] \<Rightarrow> (case TimeFunc a of None \<Rightarrow> now | Some f \<Rightarrow> f ())),
        Type = tp\<rparr> \<and>
     ref_Tags mr \<notin> dom (tag_maps h) \<and> ref_Fields mr \<notin> dom (field_maps h) \<and>
     tags_at h' tags_ref = tags_at h tags_ref \<and>
     fields_at h' fields_ref = fields_at h fields_ref \<and>
     (\<forall>p k v. p \<in> dom (tag_maps h) \<longrightarrow> load (set_tag p k v h') mr = load h' mr) \<and>
     (\<forall>p k v. p \<in> dom (field_maps h) \<longrightarrow> load (set_field p k v h') mr = load h' mr)"
proof -
  let ?n = "next_ref h"
  let ?mr = "\<lparr>ref_Measurement = measurement, ref_Tags = ?n, ref_Fields = Suc ?n,
      ref_Time = (case timestamp of t0 # _ \<Rightarrow> t0
                  | [] \<Rightarrow> (case TimeFunc a of None \<Rightarrow> now | Some f \<Rightarrow> f ())),
      ref_Type = tp\<rparr>"
  let ?h' = "h\<lparr>tag_maps := (tag_maps h)(?n \<mapsto> tags_at h tags_ref),
      field_maps := (field_maps h)(Suc ?n \<mapsto> fields_at h fields_ref),
      next_ref := Suc (Suc ?n)\<rparr>"
  have run: "addMeasurement_refs now measurement tags_ref fields_ref tp timestamp a h =
      (Some ?mr, ?h')"
    using ok lt lf nd ne by (rule addMeasurement_refs_stored)
  have below: "p < ?n" if "p \<in> dom (tag_maps h) \<or> p \<in> dom (field_maps h)" for p
    using ok that by (auto simp add: heap_ok_def)
  have fresh: "?n \<notin> dom (tag_maps h)" "Suc ?n \<notin> dom (field_maps h)"
    using below [of ?n] below [of "Suc ?n"] by auto
  have ld: "load ?h' ?mr =
       \<lparr>Measurement = measurement, Tags = tags_at h tags_ref, Fields = fields_at h fields_ref,
        Time = (case timestamp of t0 # _ \<Rightarrow> t0
                | [] \<Rightarrow> (case TimeFunc a of None \<Rightarrow> now | Some f \<Rightarrow> f ())),
        Type = tp\<rparr>"
    by (simp add: load_def tags_at_simps fields_at_simps)
  have keep_t: "tags_at ?h' tags_ref = tags_at h tags_ref"
  proof (cases tags_ref)
    case None
    then show ?thesis by (simp add: tags_at_simps)
  next
    case (Some p)
    with lt have "p \<noteq> ?n"
      using below [of p] by (auto simp add: live_tags_def)
    with Some show ?thesis by (simp add: tags_at_simps)
  qed
  have keep_f: "fields_at ?h' fields_ref = fields_at h fields_ref"
  proof (cases fields_ref)
    case None
    then show ?thesis by (simp add: fields_at_simps)
  next
    case (Some p)
    with lf have "p \<noteq> Suc ?n"
      using below [of p] by (auto simp add: live_fields_def)
    with Some show ?thesis by (simp add: fields_at_simps)
  qed
  have wt: "load (set_tag p k v ?h') ?mr = load ?h' ?mr" if "p \<in> dom (tag_maps h)" for p k v
    using below [of p] that by (intro load_after_set_tag) auto
  have wf: "load (set_field p k v ?h') ?mr = load ?h' ?mr" if "p \<in> dom (field_maps h)" for p k v
    using below [of p] that by (intro load_after_set_field) auto
  from run ld fresh keep_t keep_f wt wf show ?thesis
    by (intro exI [of _ ?mr] exI [of _ ?h']) simp
qed

section \<open>Properties\<close>

text \<open>
  C9. ClearMetrics resets the ingestion counter to zero and empties both stored sequences
  (Metrics and accumulated); the error sequence, the discard flag, the delivery channel and
  the list of resolved deliveries are as before.
\<close>

theorem ClearMetrics_frame:
  "nMetrics (ClearMetrics a) = 0 \<and> Metrics (ClearMetrics a) = [] \<and>
   accumulated (ClearMetrics a) = [] \<and> Errors (ClearMetrics a) = Errors a \<and>
   Discard (ClearMetrics a) = Discard a \<and> deliverChan (ClearMetrics a) = deliverChan a \<and>
   delivered (ClearMetrics a) = delivered a"
  by (simp add: ClearMetrics_def)

text \<open>
  C8. AddError with a non-nil error appends exactly that error at the end of the error
  sequence and wakes the waiters: no goroutine stays parked on the condition variable.
  AddError(nil) returns the accumulator as it was, so the error sequence and every other
  field are unchanged, and whoever was parked still is.
\<close>

theorem AddError_appends_or_noop:
  "Errors (AddError (Some e) a) = Errors a @ [e] \<and>
   blocked_waiters (AddError (Some e) a) = [] \<and>
   AddError None a = a \<and>
   blocked_waiters (AddError None a) = blocked_waiters a"
  by (simp add: AddError_def broadcast_if_cond_def blocked_waiters_def Broadcast_def
      split: option.splits)

text \<open>
  C2. A measurement submitted with an empty field mapping, through any of the five Add
  methods or (as a metric whose field list is empty) through AddMetric, increments the
  ingestion counter by one (in \<^verbatim>\<open>uint64\<close> arithmetic) and leaves both stored
  sequences, and so the snapshot, as they were.
\<close>

theorem empty_fields_counted_not_stored:
  "(dom fields' = {} \<longrightarrow>
      NMetrics (Add fn FromTestMetric now measurement fields' tags timestamp a) = NMetrics a + 1 \<and>
      Metrics (Add fn FromTestMetric now measurement fields' tags timestamp a) = Metrics a \<and>
      GetTelegrafMetrics (Add fn FromTestMetric now measurement fields' tags timestamp a) =
        GetTelegrafMetrics a) \<and>
   (FieldList m = [] \<longrightarrow>
      NMetrics (AddMetric FieldList ToTestMetric m a) = NMetrics a + 1 \<and>
      Metrics (AddMetric FieldList ToTestMetric m a) = Metrics a \<and>
      GetTelegrafMetrics (AddMetric FieldList ToTestMetric m a) = GetTelegrafMetrics a)"
  by (simp add: Add_addMeasurement addMeasurement_dropped AddMetric_dropped
      count_and_wake_simps NMetrics_def GetTelegrafMetrics_def)

theorem empty_fields_counted_not_stored_witness:
  "NMetrics (Add FnAddGauge (\<lambda>m. Measurement m) 7 ''cpu'' (Map.empty :: string \<rightharpoonup> int)
      [''host'' \<mapsto> ''a''] [] (zero_Accumulator :: (int, string, unit) Accumulator)) = 1 \<and>
   Metrics (Add FnAddGauge (\<lambda>m. Measurement m) 7 ''cpu'' (Map.empty :: string \<rightharpoonup> int)
      [''host'' \<mapsto> ''a''] [] (zero_Accumulator :: (int, string, unit) Accumulator)) = [] \<and>
   GetTelegrafMetrics (Add FnAddGauge (\<lambda>m. Measurement m) 7 ''cpu'' (Map.empty :: string \<rightharpoonup> int)
      [''host'' \<mapsto> ''a''] [] (zero_Accumulator :: (int, string, unit) Accumulator)) = [] \<and>
   NMetrics (AddMetric (\<lambda>m. [] :: int list)
      (\<lambda>m. \<lparr>Measurement = m, Tags = Map.empty, Fields = Map.empty, Time = 0, Type = Untyped\<rparr>)
      ''mem'' (zero_Accumulator :: (int, string, unit) Accumulator)) = 1 \<and>
   GetTelegrafMetrics (AddMetric (\<lambda>m. [] :: int list)
      (\<lambda>m. \<lparr>Measurement = m, Tags = Map.empty, Fields = Map.empty, Time = 0, Type = Untyped\<rparr>)
      ''mem'' (zero_Accumulator :: (int, string, unit) Accumulator)) = []"
  using empty_fields_counted_not_stored [of "Map.empty :: string \<rightharpoonup> int" FnAddGauge
      "\<lambda>m. Measurement m" 7 "''cpu''" "[''host'' \<mapsto> ''a'']" "[]"
      "zero_Accumulator :: (int, string, unit) Accumulator" "\<lambda>m. [] :: int list" "''mem''"
      "\<lambda>m. \<lparr>Measurement = m, Tags = Map.empty, Fields = Map.empty, Time = 0, Type = Untyped\<rparr>"]
  by (simp add: NMetrics_def GetTelegrafMetrics_def zero_Accumulator_def)

text \<open>
  C6. A measurement submitted with a non-empty field mapping while the discard flag is
  unset adds exactly one entry at the end of the stored sequence, with the name, tags,
  fields, kind and timestamp that were supplied (the timestamp argument when there is one,
  the clock otherwise): the maps are equal to the caller's, not a part of them. The
  snapshot gains the conversion of that one entry. Through AddMetric the snapshot gains
  the submitted metric itself. The entry is a copy: in memory, the stored struct reads
  back as exactly that entry, its two maps are objects that did not exist before the call,
  the caller's maps are as they were, and a later write by anyone into a map that existed
  before the call, the caller's own among them, does not change what the stored entry
  reads.
\<close>

theorem nonempty_fields_stored_exactly:
  "\<not> Discard a \<Longrightarrow>
   (dom fields' \<noteq> {} \<longrightarrow>
      Metrics (Add fn FromTestMetric now measurement fields' tags timestamp a) =
        Metrics a @
          [\<lparr>Measurement = measurement, Tags = tags, Fields = fields',
            Time = (case timestamp of t0 # _ \<Rightarrow> t0
                    | [] \<Rightarrow> (case TimeFunc a of None \<Rightarrow> now | Some f \<Rightarrow> f ())),
            Type = kind_of fn\<rparr>] \<and>
      GetTelegrafMetrics (Add fn FromTestMetric now measurement fields' tags timestamp a) =
        GetTelegrafMetrics a @
          [FromTestMetric
            \<lparr>Measurement = measurement, Tags = tags, Fields = fields',
             Time = (case timestamp of t0 # _ \<Rightarrow> t0
                     | [] \<Rightarrow> (case TimeFunc a of None \<Rightarrow> now | Some f \<Rightarrow> f ())),
             Type = kind_of fn\<rparr>]) \<and>
   (FieldList m \<noteq> [] \<longrightarrow>
      Metrics (AddMetric FieldList ToTestMetric m a) = Metrics a @ [ToTestMetric m] \<and>
      GetTelegrafMetrics (AddMetric FieldList ToTestMetric m a) = GetTelegrafMetrics a @ [m]) \<and>
   (heap_ok h \<and> live_tags h tags_ref \<and> live_fields h fields_ref \<and>
    dom (fields_at h fields_ref) \<noteq> {} \<longrightarrow>
      (\<exists>mr h'.
         addMeasurement_refs now measurement tags_ref fields_ref (kind_of fn) timestamp a h =
           (Some mr, h') \<and>
         Metrics (Add fn FromTestMetric now measurement (fields_at h fields_ref)
                    (tags_at h tags_ref) timestamp a) = Metrics a @ [load h' mr] \<and>
         load h' mr =
           \<lparr>Measurement = measurement, Tags = tags_at h tags_ref,
            Fields = fields_at h fields_ref,
            Time = (case timestamp of t0 # _ \<Rightarrow> t0
                    | [] \<Rightarrow> (case TimeFunc a of None \<Rightarrow> now | Some f \<Rightarrow> f ())),
            Type = kind_of fn\<rparr> \<and>
         ref_Tags mr \<notin> dom (tag_maps h) \<and> ref_Fields mr \<notin> dom (field_maps h) \<and>
         tags_at h' tags_ref = tags_at h tags_ref \<and>
         fields_at h' fields_ref = fields_at h fields_ref \<and>
         (\<forall>p k v. p \<in> dom (tag_maps h) \<longrightarrow> load (set_tag p k v h') mr = load h' mr) \<and>
         (\<forall>p k v. p \<in> dom (field_maps h) \<longrightarrow> load (set_field p k v h') mr = load h' mr)))"
proof -
  assume nd: "\<not> Discard a"
  have val: "dom fields' \<noteq> {} \<longrightarrow>
      Metrics (Add fn FromTestMetric now measurement fields' tags timestamp a) =
        Metrics a @
          [\<lparr>Measurement = measurement, Tags = tags, Fields = fields',
            Time = (case timestamp of t0 # _ \<Rightarrow> t0
                    | [] \<Rightarrow> (case TimeFunc a of None \<Rightarrow> now | Some f \<Rightarrow> f ())),
            Type = kind_of fn\<rparr>] \<and>
      GetTelegrafMetrics (Add fn FromTestMetric now measurement fields' tags timestamp a) =
        GetTelegrafMetrics a @
          [FromTestMetric
            \<lparr>Measurement = measurement, Tags = tags, Fields = fields',
             Time = (case timestamp of t0 # _ \<Rightarrow> t0
                     | [] \<Rightarrow> (case TimeFunc a of None \<Rightarrow> now | Some f \<Rightarrow> f ())),
             Type = kind_of fn\<rparr>]"
    using nd by (simp add: Add_addMeasurement addMeasurement_stored GetTelegrafMetrics_def)
  have met: "FieldList m \<noteq> [] \<longrightarrow>
      Metrics (AddMetric FieldList ToTestMetric m a) = Metrics a @ [ToTestMetric m] \<and>
      GetTelegrafMetrics (AddMetric FieldList ToTestMetric m a) = GetTelegrafMetrics a @ [m]"
    using nd by (simp add: AddMetric_stored GetTelegrafMetrics_def)
  have ref: "\<exists>mr h'.
         addMeasurement_refs now measurement tags_ref fields_ref (kind_of fn) timestamp a h =
           (Some mr, h') \<and>
         Metrics (Add fn FromTestMetric now measurement (fields_at h fields_ref)
                    (tags_at h tags_ref) timestamp a) = Metrics a @ [load h' mr] \<and>
         load h' mr =
           \<lparr>Measurement = measurement, Tags = tags_at h tags_ref,
            Fields = fields_at h fields_ref,
            Time = (case timestamp of t0 # _ \<Rightarrow> t0
                    | [] \<Rightarrow> (case TimeFunc a of None \<Rightarrow> now | Some f \<Rightarrow> f ())),
            Type = kind_of fn\<rparr> \<and>
         ref_Tags mr \<notin> dom (tag_maps h) \<and> ref_Fields mr \<notin> dom (field_maps h) \<and>
         tags_at h' tags_ref = tags_at h tags_ref \<and>
         fields_at h' fields_ref = fields_at h fields_ref \<and>
         (\<forall>p k v. p \<in> dom (tag_maps h) \<longrightarrow> load (set_tag p k v h') mr = load h' mr) \<and>
         (\<forall>p k v. p \<in> dom (field_maps h) \<longrightarrow> load (set_field p k v h') mr = load h' mr)"
    if ok: "heap_ok h" "live_tags h tags_ref" "live_fields h fields_ref"
      and ne: "dom (fields_at h fields_ref) \<noteq> {}"
  proof -
    from addMeasurement_refs_copy [OF ok nd ne, of now measurement "kind_of fn" timestamp]
    obtain mr h' where c:
      "addMeasurement_refs now measurement tags_ref fields_ref (kind_of fn) timestamp a h =
         (Some mr, h')"
      "load h' mr =
         \<lparr>Measurement = measurement, Tags = tags_at h tags_ref, Fields = fields_at h fields_ref,
          Time = (case timestamp of t0 # _ \<Rightarrow> t0
                  | [] \<Rightarrow> (case TimeFunc a of None \<Rightarrow> now | Some f \<Rightarrow> f ())),
          Type = kind_of fn\<rparr>"
      "ref_Tags mr \<notin> dom (tag_maps h)" "ref_Fields mr \<notin> dom (field_maps h)"
      "tags_at h' tags_ref = tags_at h tags_ref"
      "fields_at h' fields_ref = fields_at h fields_ref"
      "\<forall>p k v. p \<in> dom (tag_maps h) \<longrightarrow> load (set_tag p k v h') mr = load h' mr"
      "\<forall>p k v. p \<in> dom (field_maps h) \<longrightarrow> load (set_field p k v h') mr = load h' mr"
      by blast
    from nd ne c(2) have
      "Metrics (Add fn FromTestMetric now measurement (fields_at h fields_ref)
         (tags_at h tags_ref) timestamp a) = Metrics a @ [load h' mr]"
      by (simp add: Add_addMeasurement addMeasurement_stored)
    with c show ?thesis
      by blast
  qed
  from val met ref show ?thesis
    by blast
qed

theorem nonempty_fields_stored_exactly_witness:
  "Metrics (Add FnAddCounter (\<lambda>m. m) 5 ''cpu'' [''time_idle'' \<mapsto> (42::int)] Map.empty [1000]
      (zero_Accumulator :: (int, int Metric, unit) Accumulator)) =
     [\<lparr>Measurement = ''cpu'', Tags = Map.empty, Fields = [''time_idle'' \<mapsto> 42],
       Time = 1000, Type = Counter\<rparr>] \<and>
   GetTelegrafMetrics (Add FnAddCounter (\<lambda>m. m) 5 ''cpu'' [''time_idle'' \<mapsto> (42::int)]
      Map.empty [1000] (zero_Accumulator :: (int, int Metric, unit) Accumulator)) =
     [\<lparr>Measurement = ''cpu'', Tags = Map.empty, Fields = [''time_idle'' \<mapsto> 42],
       Time = 1000, Type = Counter\<rparr>] \<and>
   GetTelegrafMetrics (AddMetric (\<lambda>m. [()]) (\<lambda>m. m)
      \<lparr>Measurement = ''mem'', Tags = Map.empty, Fields = [''free'' \<mapsto> (1::int)],
       Time = 3, Type = Gauge\<rparr>
      (zero_Accumulator :: (int, int Metric, unit) Accumulator)) =
     [\<lparr>Measurement = ''mem'', Tags = Map.empty, Fields = [''free'' \<mapsto> 1],
       Time = 3, Type = Gauge\<rparr>] \<and>
   (\<exists>mr h'.
      addMeasurement_refs 5 ''cpu'' (Some 0) (Some 1) Counter [1000]
        (zero_Accumulator :: (int, int Metric, unit) Accumulator)
        \<lparr>tag_maps = [0 \<mapsto> [''host'' \<mapsto> ''a'']],
         field_maps = [1 \<mapsto> [''time_idle'' \<mapsto> (42::int)]], next_ref = 2\<rparr> = (Some mr, h') \<and>
      load h' mr =
        \<lparr>Measurement = ''cpu'', Tags = [''host'' \<mapsto> ''a''], Fields = [''time_idle'' \<mapsto> 42],
         Time = 1000, Type = Counter\<rparr> \<and>
      load (set_tag 0 ''host'' ''b'' h') mr =
        \<lparr>Measurement = ''cpu'', Tags = [''host'' \<mapsto> ''a''], Fields = [''time_idle'' \<mapsto> 42],
         Time = 1000, Type = Counter\<rparr> \<and>
      load (set_field 1 ''time_idle'' 0 h') mr =
        \<lparr>Measurement = ''cpu'', Tags = [''host'' \<mapsto> ''a''], Fields = [''time_idle'' \<mapsto> 42],
         Time = 1000, Type = Counter\<rparr>)"
proof -
  let ?a = "zero_Accumulator :: (int, int Metric, unit) Accumulator"
  let ?h = "\<lparr>tag_maps = [0 \<mapsto> [''host'' \<mapsto> ''a'']],
         field_maps = [1 \<mapsto> [''time_idle'' \<mapsto> (42::int)]], next_ref = 2\<rparr>"
  have nd: "\<not> Discard ?a"
    by (simp add: zero_Accumulator_def)
  note th = nonempty_fields_stored_exactly [OF nd, of
      "[''time_idle'' \<mapsto> (42::int)]" FnAddCounter "\<lambda>m. m" 5 "''cpu''" Map.empty "[1000]"
      "\<lambda>m. [()]"
      "\<lparr>Measurement = ''mem'', Tags = Map.empty, Fields = [''free'' \<mapsto> (1::int)],
        Time = 3, Type = Gauge\<rparr>"
      "\<lambda>m. m" ?h "Some 0" "Some 1"]
  have pre: "heap_ok ?h \<and> live_tags ?h (Some 0) \<and> live_fields ?h (Some 1) \<and>
      dom (fields_at ?h (Some 1)) \<noteq> {}"
    by (simp add: heap_ok_def live_tags_def live_fields_def fields_at_def)
  have dt: "(0::nat) \<in> dom (tag_maps ?h)" and df: "(1::nat) \<in> dom (field_maps ?h)"
    by simp_all
  from th pre obtain mr h' where r:
    "addMeasurement_refs 5 ''cpu'' (Some 0) (Some 1) Counter [1000] ?a ?h = (Some mr, h')"
    "load h' mr =
       \<lparr>Measurement = ''cpu'', Tags = [''host'' \<mapsto> ''a''], Fields = [''time_idle'' \<mapsto> 42],
        Time = 1000, Type = Counter\<rparr>"
    "\<forall>p k v. p \<in> dom (tag_maps ?h) \<longrightarrow> load (set_tag p k v h') mr = load h' mr"
    "\<forall>p k v. p \<in> dom (field_maps ?h) \<longrightarrow> load (set_field p k v h') mr = load h' mr"
    by (auto simp add: tags_at_def fields_at_def)
  from r(3) dt have "load (set_tag 0 ''host'' ''b'' h') mr = load h' mr"
    by blast
  moreover from r(4) df have "load (set_field 1 ''time_idle'' 0 h') mr = load h' mr"
    by blast
  moreover from th have
    "Metrics (Add FnAddCounter (\<lambda>m. m) 5 ''cpu'' [''time_idle'' \<mapsto> (42::int)] Map.empty [1000] ?a) =
     [\<lparr>Measurement = ''cpu'', Tags = Map.empty, Fields = [''time_idle'' \<mapsto> 42],
       Time = 1000, Type = Counter\<rparr>]"
    "GetTelegrafMetrics (Add FnAddCounter (\<lambda>m. m) 5 ''cpu'' [''time_idle'' \<mapsto> (42::int)]
      Map.empty [1000] ?a) =
     [\<lparr>Measurement = ''cpu'', Tags = Map.empty, Fields = [''time_idle'' \<mapsto> 42],
       Time = 1000, Type = Counter\<rparr>]"
    "GetTelegrafMetrics (AddMetric (\<lambda>m. [()]) (\<lambda>m. m)
      \<lparr>Measurement = ''mem'', Tags = Map.empty, Fields = [''free'' \<mapsto> (1::int)],
       Time = 3, Type = Gauge\<rparr> ?a) =
     [\<lparr>Measurement = ''mem'', Tags = Map.empty, Fields = [''free'' \<mapsto> 1],
       Time = 3, Type = Gauge\<rparr>]"
    by (simp_all add: GetTelegrafMetrics_def zero_Accumulator_def)
  ultimately show ?thesis
    using r(1,2) by (intro conjI exI [of _ mr] exI [of _ h']) simp_all
qed

text \<open>
  C7. When one of AddFields, AddCounter, AddGauge, AddSummary or AddHistogram stores a
  measurement and no timestamp argument was given, the stored time is what the injected
  clock function returns, or the wall-clock reading of the call when no clock function
  was injected. When a timestamp was given, the stored time is that timestamp.
\<close>

theorem stored_time_source:
  "\<not> Discard a \<Longrightarrow> dom fields' \<noteq> {} \<Longrightarrow>
   length (Metrics (Add fn FromTestMetric now measurement fields' tags [] a)) =
     Suc (length (Metrics a)) \<and>
   Time (last (Metrics (Add fn FromTestMetric now measurement fields' tags [] a))) =
     (case TimeFunc a of Some clock \<Rightarrow> clock () | None \<Rightarrow> now) \<and>
   length (Metrics (Add fn FromTestMetric now measurement fields' tags (t # ts) a)) =
     Suc (length (Metrics a)) \<and>
   Time (last (Metrics (Add fn FromTestMetric now measurement fields' tags (t # ts) a))) = t"
  by (simp add: Add_addMeasurement addMeasurement_stored split: option.splits)

theorem stored_time_source_witness:
  "Time (last (Metrics (Add FnAddSummary (\<lambda>m. m) 5 ''cpu'' [''usage'' \<mapsto> (1::int)] Map.empty []
      ((zero_Accumulator :: (int, int Metric, unit) Accumulator)\<lparr>TimeFunc := Some (\<lambda>_. 77)\<rparr>)))) = 77 \<and>
   Time (last (Metrics (Add FnAddSummary (\<lambda>m. m) 5 ''cpu'' [''usage'' \<mapsto> (1::int)] Map.empty [9, 8]
      ((zero_Accumulator :: (int, int Metric, unit) Accumulator)\<lparr>TimeFunc := Some (\<lambda>_. 77)\<rparr>)))) = 9"
  using stored_time_source [of
      "(zero_Accumulator :: (int, int Metric, unit) Accumulator)\<lparr>TimeFunc := Some (\<lambda>_. 77)\<rparr>"
      "[''usage'' \<mapsto> (1::int)]" FnAddSummary "\<lambda>m. m" 5 "''cpu''" Map.empty 9 "[8]"]
  by (simp add: zero_Accumulator_def)

text \<open>
  C4, as the code has it. ClearMetrics stores zero in the ingestion counter, so the counter
  is not monotone over every sequence of operations. Over a sequence without ClearMetrics
  the counter grows by the number of measurements submitted, in \<^verbatim>\<open>uint64\<close>
  arithmetic, so what NMetrics reads never decreases as long as the sum stays below
  \<open>2 ^ 64\<close>. ClearMetrics resets the counter to zero.
\<close>

theorem counter_monotone_without_clear:
  "(OpClearMetrics \<notin> set xs \<longrightarrow> run F FL TT xs a = Inr a' \<longrightarrow>
      NMetrics a' = NMetrics a + of_nat (sum_list (map submissions xs)) \<and>
      (unat (NMetrics a) + sum_list (map submissions xs) < 2 ^ 64 \<longrightarrow>
         NMetrics a \<le> NMetrics a')) \<and>
   NMetrics (ClearMetrics a) = 0"
  by (simp add: NMetrics_def run_nMetrics word_add_no_wrap ClearMetrics_def)

theorem counter_monotone_without_clear_witness:
  "run (\<lambda>m. Measurement m) (\<lambda>m. [()])
     (\<lambda>m. \<lparr>Measurement = m, Tags = Map.empty, Fields = Map.empty, Time = 0, Type = Untyped\<rparr>)
     [OpAddMetric ''cpu'', OpAddError (Some ''boom''), OpAddMetrics [''mem'', ''disk'']]
     (zero_Accumulator :: (int, string, unit) Accumulator) =
   Inr (AddMetrics (\<lambda>m. [()])
     (\<lambda>m. \<lparr>Measurement = m, Tags = Map.empty, Fields = Map.empty, Time = 0, Type = Untyped\<rparr>)
     [''mem'', ''disk'']
     (AddError (Some ''boom'') (AddMetric (\<lambda>m. [()])
       (\<lambda>m. \<lparr>Measurement = m, Tags = Map.empty, Fields = Map.empty, Time = 0, Type = Untyped\<rparr>)
       ''cpu'' zero_Accumulator))) \<and>
   NMetrics (AddMetrics (\<lambda>m. [()])
     (\<lambda>m. \<lparr>Measurement = m, Tags = Map.empty, Fields = Map.empty, Time = 0, Type = Untyped\<rparr>)
     [''mem'', ''disk'']
     (AddError (Some ''boom'') (AddMetric (\<lambda>m. [()])
       (\<lambda>m. \<lparr>Measurement = m, Tags = Map.empty, Fields = Map.empty, Time = 0, Type = Untyped\<rparr>)
       ''cpu'' (zero_Accumulator :: (int, string, unit) Accumulator)))) = 3 \<and>
   NMetrics (zero_Accumulator :: (int, string, unit) Accumulator) \<le>
   NMetrics (AddMetrics (\<lambda>m. [()])
     (\<lambda>m. \<lparr>Measurement = m, Tags = Map.empty, Fields = Map.empty, Time = 0, Type = Untyped\<rparr>)
     [''mem'', ''disk'']
     (AddError (Some ''boom'') (AddMetric (\<lambda>m. [()])
       (\<lambda>m. \<lparr>Measurement = m, Tags = Map.empty, Fields = Map.empty, Time = 0, Type = Untyped\<rparr>)
       ''cpu'' (zero_Accumulator :: (int, string, unit) Accumulator))))"
  using counter_monotone_without_clear [of
      "[OpAddMetric ''cpu'', OpAddError (Some ''boom''), OpAddMetrics [''mem'', ''disk'']]"
      "\<lambda>m. Measurement m" "\<lambda>m. [()]"
      "\<lambda>m. \<lparr>Measurement = m, Tags = Map.empty, Fields = Map.empty, Time = 0, Type = Untyped\<rparr>"
      "zero_Accumulator :: (int, string, unit) Accumulator"
      "AddMetrics (\<lambda>m. [()])
        (\<lambda>m. \<lparr>Measurement = m, Tags = Map.empty, Fields = Map.empty, Time = 0, Type = Untyped\<rparr>)
        [''mem'', ''disk'']
        (AddError (Some ''boom'') (AddMetric (\<lambda>m. [()])
          (\<lambda>m. \<lparr>Measurement = m, Tags = Map.empty, Fields = Map.empty, Time = 0, Type = Untyped\<rparr>)
          ''cpu'' zero_Accumulator))"]
  by (simp add: NMetrics_def zero_Accumulator_def)

text \<open>
  C4 as stated fails: after one AddMetric the counter reads 1, and ClearMetrics brings it
  back to 0.
\<close>

theorem counter_decreases_counterexample:
  "NMetrics (AddMetric (\<lambda>m. [()])
      (\<lambda>m. \<lparr>Measurement = m, Tags = Map.empty, Fields = Map.empty, Time = 0, Type = Untyped\<rparr>)
      ''cpu'' (zero_Accumulator :: (int, string, unit) Accumulator)) = 1 \<and>
   NMetrics (ClearMetrics (AddMetric (\<lambda>m. [()])
      (\<lambda>m. \<lparr>Measurement = m, Tags = Map.empty, Fields = Map.empty, Time = 0, Type = Untyped\<rparr>)
      ''cpu'' (zero_Accumulator :: (int, string, unit) Accumulator))) = 0 \<and>
   \<not> NMetrics (AddMetric (\<lambda>m. [()])
      (\<lambda>m. \<lparr>Measurement = m, Tags = Map.empty, Fields = Map.empty, Time = 0, Type = Untyped\<rparr>)
      ''cpu'' (zero_Accumulator :: (int, string, unit) Accumulator))
     \<le> NMetrics (ClearMetrics (AddMetric (\<lambda>m. [()])
      (\<lambda>m. \<lparr>Measurement = m, Tags = Map.empty, Fields = Map.empty, Time = 0, Type = Untyped\<rparr>)
      ''cpu'' (zero_Accumulator :: (int, string, unit) Accumulator)))"
  by (simp add: NMetrics_def ClearMetrics_def AddMetric_def Let_def count_and_wake_simps
      zero_Accumulator_def)

text \<open>
  C10. The two stored sequences, Metrics and accumulated, have the same length after every
  sequence of operations on an accumulator in which they had the same length, as they do
  in the zero value: a store appends one element to each, ClearMetrics empties both, and
  nothing else touches them.
\<close>

theorem stored_sequences_same_length:
  "(length (Metrics a) = length (accumulated a) \<longrightarrow> run F FL TT xs a = Inr a' \<longrightarrow>
      length (Metrics a') = length (accumulated a')) \<and>
   (run F FL TT xs zero_Accumulator = Inr a'' \<longrightarrow>
      length (Metrics a'') = length (accumulated a''))"
proof -
  have "length (Metrics (zero_Accumulator :: ('a, 'b, 'c) Accumulator)) =
        length (accumulated (zero_Accumulator :: ('a, 'b, 'c) Accumulator))"
    by (simp add: zero_Accumulator_def)
  then show ?thesis
    by (blast intro: run_lengths)
qed

theorem stored_sequences_same_length_witness:
  "run (\<lambda>m. Measurement m) (\<lambda>m. [()])
     (\<lambda>m. \<lparr>Measurement = m, Tags = Map.empty, Fields = Map.empty, Time = 0, Type = Untyped\<rparr>)
     [OpAdd FnAddGauge 4 ''cpu'' [''idle'' \<mapsto> (1::int)] Map.empty [], OpAddMetric ''mem'']
     (zero_Accumulator :: (int, string, unit) Accumulator) =
   Inr (AddMetric (\<lambda>m. [()])
     (\<lambda>m. \<lparr>Measurement = m, Tags = Map.empty, Fields = Map.empty, Time = 0, Type = Untyped\<rparr>)
     ''mem''
     (AddGauge (\<lambda>m. Measurement m) 4 ''cpu'' [''idle'' \<mapsto> 1] Map.empty [] zero_Accumulator)) \<and>
   length (Metrics (AddMetric (\<lambda>m. [()])
     (\<lambda>m. \<lparr>Measurement = m, Tags = Map.empty, Fields = Map.empty, Time = 0, Type = Untyped\<rparr>)
     ''mem''
     (AddGauge (\<lambda>m. Measurement m) 4 ''cpu'' [''idle'' \<mapsto> (1::int)] Map.empty []
       (zero_Accumulator :: (int, string, unit) Accumulator)))) = 2 \<and>
   length (accumulated (AddMetric (\<lambda>m. [()])
     (\<lambda>m. \<lparr>Measurement = m, Tags = Map.empty, Fields = Map.empty, Time = 0, Type = Untyped\<rparr>)
     ''mem''
     (AddGauge (\<lambda>m. Measurement m) 4 ''cpu'' [''idle'' \<mapsto> (1::int)] Map.empty []
       (zero_Accumulator :: (int, string, unit) Accumulator)))) = 2"
  using stored_sequences_same_length [of
      "zero_Accumulator :: (int, string, unit) Accumulator"
      "\<lambda>m. Measurement m" "\<lambda>m. [()]"
      "\<lambda>m. \<lparr>Measurement = m, Tags = Map.empty, Fields = Map.empty, Time = 0, Type = Untyped\<rparr>"
      "[OpAdd FnAddGauge 4 ''cpu'' [''idle'' \<mapsto> (1::int)] Map.empty [], OpAddMetric ''mem'']"
      "AddMetric (\<lambda>m. [()])
        (\<lambda>m. \<lparr>Measurement = m, Tags = Map.empty, Fields = Map.empty, Time = 0, Type = Untyped\<rparr>)
        ''mem''
        (AddGauge (\<lambda>m. Measurement m) 4 ''cpu'' [''idle'' \<mapsto> 1] Map.empty [] zero_Accumulator)"
      "AddMetric (\<lambda>m. [()])
        (\<lambda>m. \<lparr>Measurement = m, Tags = Map.empty, Fields = Map.empty, Time = 0, Type = Untyped\<rparr>)
        ''mem''
        (AddGauge (\<lambda>m. Measurement m) 4 ''cpu'' [''idle'' \<mapsto> 1] Map.empty [] zero_Accumulator)"]
  by (simp add: zero_Accumulator_def AddMetric_def AddGauge_def addMeasurement_def Let_def
      count_and_wake_simps)

text \<open>
  C5. With the discard flag set, every call of an Add method or of AddMetric increments the
  ingestion counter and wakes the waiters (none stays parked on the condition variable),
  and neither stored sequence changes, whatever the fields. So after five submissions with
  fields on an empty discarding accumulator the counter is 5 and the snapshot is empty.
\<close>

theorem discard_counts_without_storing:
  "Discard a \<Longrightarrow> list_all is_add xs \<Longrightarrow> xs \<noteq> [] \<Longrightarrow>
   \<exists>a'. run F FL TT xs a = Inr a' \<and>
        NMetrics a' = NMetrics a + of_nat (length xs) \<and>
        blocked_waiters a' = [] \<and>
        Metrics a' = Metrics a \<and>
        GetTelegrafMetrics a' = GetTelegrafMetrics a"
  using run_add_discard [of a xs F FL TT]
  by (auto simp add: NMetrics_def GetTelegrafMetrics_def)

theorem discard_counts_without_storing_witness:
  "\<exists>a'. run (\<lambda>m. Measurement m) (\<lambda>m. [()])
          (\<lambda>m. \<lparr>Measurement = m, Tags = Map.empty, Fields = Map.empty, Time = 0, Type = Untyped\<rparr>)
          [OpAdd FnAddFields 1 ''cpu'' [''idle'' \<mapsto> (1::int)] Map.empty [],
           OpAdd FnAddCounter 2 ''cpu'' [''idle'' \<mapsto> 2] Map.empty [],
           OpAdd FnAddGauge 3 ''cpu'' [''idle'' \<mapsto> 3] Map.empty [30],
           OpAdd FnAddSummary 4 ''cpu'' [''idle'' \<mapsto> 4] Map.empty [],
           OpAddMetric ''mem'']
          ((zero_Accumulator :: (int, string, unit) Accumulator)
             \<lparr>Discard := True, Cond := Some [3, 8]\<rparr>) = Inr a' \<and>
        NMetrics a' = 5 \<and> blocked_waiters a' = [] \<and> Metrics a' = [] \<and>
        GetTelegrafMetrics a' = []"
  using discard_counts_without_storing [of
      "(zero_Accumulator :: (int, string, unit) Accumulator)\<lparr>Discard := True, Cond := Some [3, 8]\<rparr>"
      "[OpAdd FnAddFields 1 ''cpu'' [''idle'' \<mapsto> (1::int)] Map.empty [],
        OpAdd FnAddCounter 2 ''cpu'' [''idle'' \<mapsto> 2] Map.empty [],
        OpAdd FnAddGauge 3 ''cpu'' [''idle'' \<mapsto> 3] Map.empty [30],
        OpAdd FnAddSummary 4 ''cpu'' [''idle'' \<mapsto> 4] Map.empty [],
        OpAddMetric ''mem'']"
      "\<lambda>m. Measurement m" "\<lambda>m. [()]"
      "\<lambda>m. \<lparr>Measurement = m, Tags = Map.empty, Fields = Map.empty, Time = 0, Type = Untyped\<rparr>"]
  by (simp add: NMetrics_def GetTelegrafMetrics_def zero_Accumulator_def)

text \<open>
  C3, as the code has it. On an accumulator whose tracking was enabled by WithTracking,
  when the notification queue already holds as many notifications as the capacity
  reserved and, for a capacity of 0, no consumer is parked in a receive on it,
  \<^verbatim>\<open>onDelivery\<close> panics with "channel is full". It never drops the notification and
  never blocks: it either panics in this way or returns with the notification passed to
  the queue (or handed to a parked consumer), and nothing else changed.
\<close>

theorem full_queue_panics:
  assumes "deliverChan a0 = None" and "run F FL TT xs a0 = Inr a" and "deliverChan a = Some c"
  shows "(length (buf c) = cap c \<and> (cap c = 0 \<longrightarrow> recvq c = 0) \<longrightarrow>
            onDelivery info a = Inl (Panic ''channel is full'')) \<and>
         (onDelivery info a = Inl (Panic ''channel is full'') \<or>
          (\<exists>c'. onDelivery info a = Inr (a\<lparr>deliverChan := Some c'\<rparr>) \<and>
                sent c' = sent c @ [info]))"
proof -
  from assms(1) have "acc_chan_ok a0"
    by (simp add: acc_chan_ok_def)
  with assms(2) have "acc_chan_ok a"
    by (rule run_chan_ok [rotated])
  with assms(3) have "chan_ok c"
    by (simp add: acc_chan_ok_def)
  with assms(3) have "length (buf c) = cap c \<and> (cap c = 0 \<longrightarrow> recvq c = 0) \<longrightarrow>
      onDelivery info a = Inl (Panic ''channel is full'')"
    by (simp add: onDelivery_full)
  with onDelivery_outcomes [OF assms(3), of info] show ?thesis
    by simp
qed

theorem full_queue_panics_witness:
  "run (\<lambda>m. Measurement m) (\<lambda>m. [()])
     (\<lambda>m. \<lparr>Measurement = m, Tags = Map.empty, Fields = Map.empty, Time = 0, Type = Untyped\<rparr>)
     [OpWithTracking 1, OpOnDelivery 7]
     (zero_Accumulator :: (int, string, nat) Accumulator) =
   Inr (zero_Accumulator\<lparr>deliverChan := Some \<lparr>cap = 1, buf = [7], recvq = 0, sent = [7]\<rparr>\<rparr>) \<and>
   onDelivery 8
     ((zero_Accumulator :: (int, string, nat) Accumulator)
        \<lparr>deliverChan := Some \<lparr>cap = 1, buf = [7], recvq = 0, sent = [7]\<rparr>\<rparr>) =
   Inl (Panic ''channel is full'')"
  using full_queue_panics [of "zero_Accumulator :: (int, string, nat) Accumulator"
      "\<lambda>m. Measurement m" "\<lambda>m. [()]"
      "\<lambda>m. \<lparr>Measurement = m, Tags = Map.empty, Fields = Map.empty, Time = 0, Type = Untyped\<rparr>"
      "[OpWithTracking 1, OpOnDelivery 7]"
      "zero_Accumulator\<lparr>deliverChan := Some \<lparr>cap = 1, buf = [7], recvq = 0, sent = [7]\<rparr>\<rparr>"
      "\<lparr>cap = 1, buf = [7], recvq = 0, sent = [7]\<rparr>" 8]
  by (simp add: zero_Accumulator_def WithTracking_def onDelivery_def trysend_def)

text \<open>
  C3 as stated fails for a capacity of 0: after WithTracking(0) and a consumer parked in
  \<^verbatim>\<open><-a.Delivered()\<close>, the queue holds 0 notifications, which is its capacity, and
  \<^verbatim>\<open>onDelivery\<close> hands the notification to the consumer and returns.
\<close>

theorem full_queue_handoff_counterexample:
  "run (\<lambda>m. Measurement m) (\<lambda>m. [()])
     (\<lambda>m. \<lparr>Measurement = m, Tags = Map.empty, Fields = Map.empty, Time = 0, Type = Untyped\<rparr>)
     [OpWithTracking 0, OpConsumerReceive]
     (zero_Accumulator :: (int, string, nat) Accumulator) =
   Inr (zero_Accumulator\<lparr>deliverChan := Some \<lparr>cap = 0, buf = [], recvq = 1, sent = []\<rparr>\<rparr>) \<and>
   length (buf \<lparr>cap = 0, buf = [] :: nat list, recvq = 1, sent = []\<rparr>) =
     cap \<lparr>cap = 0, buf = [] :: nat list, recvq = 1, sent = []\<rparr> \<and>
   onDelivery 7
     ((zero_Accumulator :: (int, string, nat) Accumulator)
        \<lparr>deliverChan := Some \<lparr>cap = 0, buf = [], recvq = 1, sent = []\<rparr>\<rparr>) =
   Inr (zero_Accumulator\<lparr>deliverChan := Some \<lparr>cap = 0, buf = [], recvq = 0, sent = [7]\<rparr>\<rparr>)"
  by (simp add: zero_Accumulator_def WithTracking_def consumer_receive_def Delivered_def
      receive_def onDelivery_def trysend_def)

text \<open>
  C1, as the code has it. A tracker that started without obligations has run any events;
  then a group of N measurements, N at least 1, is registered by AddTrackingMetricGroup;
  then any events follow that keep the queue: submissions, other groups, completions of
  this and of other groups, in any order. As long as fewer than N completions of the group
  have been reported, no notification with its id has been emitted and a further
  completion succeeds. The N-th completion emits the notification when the queue can take
  it, and panics with "channel is full" otherwise. Once N completions are in, exactly one
  notification carries the group's id, its accepted count is the number of completions
  reported with accepted = true, and any further completion for the id fails, so there are
  never more than N and never a second notification.
\<close>

theorem group_notified_once_after_all:
  assumes fresh: "obligations t0 = Map.empty" "deliverChan (acc t0) = None"
    and before: "list_all by_tracker evs0" "trun W F FL TT evs0 t0 = Inr t"
    and nonempty: "grp \<noteq> []"
    and reg: "AddTrackingMetricGroup W FL TT grp t = (gid, t1)"
    and later: "list_all keeps_queue evs" "trun W F FL TT evs t1 = Inr t2"
  shows "length (completions gid evs) \<le> length grp \<and>
         filter (\<lambda>n. info_id n = gid) (notified t2) =
           (if length (completions gid evs) = length grp
            then [\<lparr>info_id = gid, info_delivered = True,
                   info_accepted = length (filter (\<lambda>b. b) (completions gid evs))\<rparr>]
            else []) \<and>
         (Suc (length (completions gid evs)) < length grp \<longrightarrow>
            (\<exists>t3. OnMemberDelivered gid b t2 = Inr t3)) \<and>
         (Suc (length (completions gid evs)) = length grp \<longrightarrow>
            (if \<exists>c. deliverChan (acc t2) = Some c \<and> (0 < recvq c \<or> length (buf c) < cap c)
             then \<exists>t3. OnMemberDelivered gid b t2 = Inr t3
             else OnMemberDelivered gid b t2 = Inl (Panic ''channel is full''))) \<and>
         (length (completions gid evs) = length grp \<longrightarrow>
            OnMemberDelivered gid b t2 = Inl (Panic ''unknown obligation''))"
proof -
  let ?fl = "completions gid evs"
  let ?N = "length grp"
  from fresh have "tracker_ok t0"
    by (simp add: tracker_ok_def notified_def)
  with before have "tracker_ok t"
    by (auto intro: trun_tracker_ok)
  from group_inv_start [OF this reg nonempty] later
  have "group_inv gid ?N ([] @ ?fl) t2"
    by (rule trun_group_inv)
  then have inv: "group_inv gid ?N ?fl t2"
    by simp
  then have le: "length ?fl \<le> ?N"
    by (auto simp add: group_inv_def split: if_splits)
  from inv have sent: "filter (\<lambda>n. info_id n = gid) (notified t2) =
      (if length ?fl = ?N
       then [\<lparr>info_id = gid, info_delivered = True,
              info_accepted = length (filter (\<lambda>b. b) ?fl)\<rparr>]
       else [])"
    by (auto simp add: group_inv_def split: if_splits)
  let ?ob = "\<lparr>ob_id = gid, member_count = ?N, acknowledged_count = length ?fl,
      accepted_count = length (filter (\<lambda>b. b) ?fl), ob_delivered = False\<rparr>"
  have pend: "\<exists>t3. OnMemberDelivered gid b t2 = Inr t3" if "Suc (length ?fl) < ?N"
  proof -
    from inv that have "obligations t2 gid = Some ?ob"
      by (auto simp add: group_inv_def split: if_splits)
    from OnMemberDelivered_pending [OF this, of b] that show ?thesis
      by simp
  qed
  have last: "if \<exists>c. deliverChan (acc t2) = Some c \<and> (0 < recvq c \<or> length (buf c) < cap c)
      then \<exists>t3. OnMemberDelivered gid b t2 = Inr t3
      else OnMemberDelivered gid b t2 = Inl (Panic ''channel is full'')"
    if "Suc (length ?fl) = ?N"
  proof -
    from inv that have ob: "obligations t2 gid = Some ?ob"
      by (auto simp add: group_inv_def split: if_splits)
    from that have l: "Suc (acknowledged_count ?ob) = member_count ?ob"
      by simp
    show ?thesis
    proof (cases "\<exists>c. deliverChan (acc t2) = Some c \<and> (0 < recvq c \<or> length (buf c) < cap c)")
      case True
      then obtain c where "deliverChan (acc t2) = Some c" "0 < recvq c \<or> length (buf c) < cap c"
        by blast
      from OnMemberDelivered_last [OF ob l this, of b] True show ?thesis
        by auto
    next
      case False
      then have "\<forall>c. deliverChan (acc t2) = Some c \<longrightarrow> recvq c = 0 \<and> cap c \<le> length (buf c)"
        by auto
      from OnMemberDelivered_last_full [OF ob l this, of b] False show ?thesis
        by simp
    qed
  qed
  have after: "OnMemberDelivered gid b t2 = Inl (Panic ''unknown obligation'')"
    if "length ?fl = ?N"
  proof -
    from inv that have "obligations t2 gid = None"
      by (auto simp add: group_inv_def split: if_splits)
    then show ?thesis
      by (simp add: OnMemberDelivered_def)
  qed
  from le sent pend last after show ?thesis
    by blast
qed

theorem group_notified_once_after_all_witness:
  "\<exists>t2. trun (\<lambda>gid m. m) (\<lambda>m. Measurement m) (\<lambda>m. [()])
       (\<lambda>m. \<lparr>Measurement = m, Tags = Map.empty, Fields = Map.empty, Time = 0, Type = Untyped\<rparr>)
       [EvDelivered 0 True, EvGroup [''m3''], EvOp (OpAddError (Some ''boom'')),
        EvDelivered 1 True, EvDelivered 0 False]
       (snd (AddTrackingMetricGroup (\<lambda>gid m. m) (\<lambda>m. [()])
          (\<lambda>m. \<lparr>Measurement = m, Tags = Map.empty, Fields = Map.empty, Time = 0, Type = Untyped\<rparr>)
          [''m1'', ''m2'']
          \<lparr>acc = (zero_Accumulator :: (int, string, DeliveryInfo) Accumulator)
                   \<lparr>deliverChan := Some \<lparr>cap = 2, buf = [], recvq = 0, sent = []\<rparr>\<rparr>,
            obligations = Map.empty, next_id = 0\<rparr>)) = Inr t2 \<and>
     filter (\<lambda>n. info_id n = 0) (notified t2) =
       [\<lparr>info_id = 0, info_delivered = True, info_accepted = 1\<rparr>] \<and>
     OnMemberDelivered 0 True t2 = Inl (Panic ''unknown obligation'')"
proof -
  let ?W = "\<lambda>(gid :: TrackingID) (m :: string). m"
  let ?F = "\<lambda>m :: int Metric. Measurement m"
  let ?FL = "\<lambda>m :: string. [()]"
  let ?TT = "\<lambda>m. \<lparr>Measurement = m, Tags = Map.empty, Fields = (Map.empty :: string \<rightharpoonup> int),
      Time = 0, Type = Untyped\<rparr>"
  let ?start = "\<lparr>acc = (zero_Accumulator :: (int, string, DeliveryInfo) Accumulator),
      obligations = Map.empty, next_id = 0\<rparr>"
  let ?enabled = "\<lparr>acc = (zero_Accumulator :: (int, string, DeliveryInfo) Accumulator)
                   \<lparr>deliverChan := Some \<lparr>cap = 2, buf = [], recvq = 0, sent = []\<rparr>\<rparr>,
            obligations = Map.empty, next_id = 0\<rparr>"
  let ?evs = "[EvDelivered 0 True, EvGroup [''m3''], EvOp (OpAddError (Some ''boom'')),
        EvDelivered 1 True, EvDelivered 0 False] :: (int, string) event list"
  let ?r = "AddTrackingMetricGroup ?W ?FL ?TT [''m1'', ''m2''] ?enabled"
  have fresh1: "obligations ?start = Map.empty"
    by simp
  have fresh2: "deliverChan (acc ?start) = None"
    by (simp add: zero_Accumulator_def)
  have before1: "list_all by_tracker [EvOp (OpWithTracking 2) :: (int, string) event]"
    by simp
  have before2: "trun ?W ?F ?FL ?TT [EvOp (OpWithTracking 2)] ?start = Inr ?enabled"
    by (simp add: WithTracking_def zero_Accumulator_def)
  have ne: "[''m1'', ''m2''] \<noteq> []"
    by simp
  have reg: "?r = (0, snd ?r)"
    by (simp add: AddTrackingMetricGroup_def WithGroupTracking_def Let_def)
  have later: "list_all keeps_queue ?evs"
    by simp
  have "\<exists>t2. trun ?W ?F ?FL ?TT ?evs (snd ?r) = Inr t2"
    by (simp add: AddTrackingMetricGroup_def WithGroupTracking_def OnMemberDelivered_def
      onDelivery_def trysend_def remaining_def Let_def AddMetric_def count_and_wake_def
      broadcast_if_cond_def zero_Accumulator_def AddError_def)
  then obtain t2 where run: "trun ?W ?F ?FL ?TT ?evs (snd ?r) = Inr t2"
    by blast
  from group_notified_once_after_all [OF fresh1 fresh2 before1 before2 ne reg later run, of True]
  have "filter (\<lambda>n. info_id n = 0) (notified t2) =
       [\<lparr>info_id = 0, info_delivered = True, info_accepted = 1\<rparr>] \<and>
     OnMemberDelivered 0 True t2 = Inl (Panic ''unknown obligation'')"
    by simp
  with run show ?thesis
    by blast
qed

text \<open>
  C1 as stated fails when the queue is full: with a capacity of 1, two groups of one
  member each are registered; the completion of the first emits its notification, and the
  completion of the second, the only one of its group, panics instead of emitting one.
\<close>

theorem group_not_notified_counterexample:
  "(case trun (\<lambda>gid m. m) (\<lambda>m. Measurement m) (\<lambda>m. [()])
       (\<lambda>m. \<lparr>Measurement = m, Tags = Map.empty, Fields = Map.empty, Time = 0, Type = Untyped\<rparr>)
       [EvOp (OpWithTracking 1), EvGroup [''m1''], EvGroup [''m2''], EvDelivered 0 True]
       \<lparr>acc = (zero_Accumulator :: (int, string, DeliveryInfo) Accumulator),
        obligations = Map.empty, next_id = 0\<rparr> of
     Inl f \<Rightarrow> False
   | Inr t \<Rightarrow> notified t = [\<lparr>info_id = 0, info_delivered = True, info_accepted = 1\<rparr>]) \<and>
   trun (\<lambda>gid m. m) (\<lambda>m. Measurement m) (\<lambda>m. [()])
       (\<lambda>m. \<lparr>Measurement = m, Tags = Map.empty, Fields = Map.empty, Time = 0, Type = Untyped\<rparr>)
       [EvOp (OpWithTracking 1), EvGroup [''m1''], EvGroup [''m2''], EvDelivered 0 True,
        EvDelivered 1 True]
       \<lparr>acc = (zero_Accumulator :: (int, string, DeliveryInfo) Accumulator),
        obligations = Map.empty, next_id = 0\<rparr> =
     Inl (Panic ''channel is full'')"
  by (simp add: AddTrackingMetricGroup_def WithGroupTracking_def OnMemberDelivered_def
      onDelivery_def trysend_def remaining_def Let_def AddMetric_def count_and_wake_def
      broadcast_if_cond_def zero_Accumulator_def WithTracking_def notified_def)

end
